theory Spec2Isabelle
  imports Main "HOL-Library.Word"
begin

unbundle bit_operations_syntax

section \<open>JavaScript primitives used by \<open>lib/networking-stack.ts\<close>\<close>

text \<open>
  Strings are lists of 8-bit characters (the Latin-1 part of JavaScript's UTF-16 strings).

  A JavaScript \<open>number\<close> is an IEEE 754 double. Every number the stack computes is
  \<open>NaN\<close>, an infinity or an integer, so the model has these three kinds, and
  \<open>to_number\<close> is the conversion of a mathematical integer to the nearest double: exact
  below \<open>2 ^ 53\<close>, rounded to 53 significant bits with ties to even above, and an infinity
  from \<open>2 ^ 1024\<close> on. The sum and the product of two doubles are the exact result
  converted in this way. The negative zero that \<open>parseInt("-0")\<close> returns is \<open>Num 0\<close>:
  it only ever is the right operand of the sum in \<open>ipToNumber\<close>, whose left operand is never a
  negative zero, so the sum is the same, and \<open>ToUint32\<close> maps it to 0.
\<close>

datatype number = NaN | PosInf | NegInf | Num int

function bit_length :: "int \<Rightarrow> nat" where
  "bit_length n = (if n \<le> 0 then 0 else Suc (bit_length (n div 2)))"
  by pat_completeness auto
termination
  by (relation "measure nat") auto

declare bit_length.simps [simp del]

text \<open>The magnitude rounded to a double's 53 significant bits; \<open>None\<close> when it overflows.\<close>

definition round_magnitude :: "int \<Rightarrow> int option" where
  "round_magnitude m =
     (if m < 2 ^ 53 then Some m
      else
        let e = bit_length m - 53;
            q = m div 2 ^ e;
            r = m mod 2 ^ e;
            q' = (if 2 ^ e < 2 * r \<or> (2 * r = 2 ^ e \<and> odd q) then q + 1 else q)
        in if q' * 2 ^ e < 2 ^ 1024 then Some (q' * 2 ^ e) else None)"

definition to_number :: "int \<Rightarrow> number" where
  "to_number x =
     (case round_magnitude \<bar>x\<bar> of
        Some m \<Rightarrow> Num (sgn x * m)
      | None \<Rightarrow> if x < 0 then NegInf else PosInf)"

text \<open>\<open>a + b\<close> and \<open>a * b\<close> on numbers.\<close>

fun num_add :: "number \<Rightarrow> number \<Rightarrow> number" where
  "num_add (Num a) (Num b) = to_number (a + b)"
| "num_add NaN _ = NaN"
| "num_add _ NaN = NaN"
| "num_add PosInf NegInf = NaN"
| "num_add NegInf PosInf = NaN"
| "num_add PosInf _ = PosInf"
| "num_add _ PosInf = PosInf"
| "num_add NegInf _ = NegInf"
| "num_add _ NegInf = NegInf"

fun num_mul :: "number \<Rightarrow> number \<Rightarrow> number" where
  "num_mul (Num a) (Num b) = to_number (a * b)"
| "num_mul NaN _ = NaN"
| "num_mul _ NaN = NaN"
| "num_mul PosInf (Num b) = (if b = 0 then NaN else if b < 0 then NegInf else PosInf)"
| "num_mul NegInf (Num b) = (if b = 0 then NaN else if b < 0 then PosInf else NegInf)"
| "num_mul (Num a) PosInf = (if a = 0 then NaN else if a < 0 then NegInf else PosInf)"
| "num_mul (Num a) NegInf = (if a = 0 then NaN else if a < 0 then PosInf else NegInf)"
| "num_mul PosInf PosInf = PosInf"
| "num_mul NegInf NegInf = PosInf"
| "num_mul PosInf NegInf = NegInf"
| "num_mul NegInf PosInf = NegInf"

text \<open>\<open>s.split(sep)\<close> for a one-character separator: never empty, \<open>''''.split(sep) = ['''']\<close>.\<close>

fun str_split :: "char \<Rightarrow> string \<Rightarrow> string list" where
  "str_split sep [] = [[]]"
| "str_split sep (c # cs) =
     (if c = sep then [] # str_split sep cs
      else (case str_split sep cs of [] \<Rightarrow> [[c]] | p # ps \<Rightarrow> (c # p) # ps))"

text \<open>\<open>parts.join(sep)\<close>.\<close>

fun str_join :: "string \<Rightarrow> string list \<Rightarrow> string" where
  "str_join sep [] = []"
| "str_join sep [p] = p"
| "str_join sep (p # q # ps) = p @ sep @ str_join sep (q # ps)"

text \<open>\<open>xs[i]\<close>: \<open>undefined\<close> (here \<open>None\<close>) outside the array.\<close>

definition at :: "'a list \<Rightarrow> nat \<Rightarrow> 'a option" where
  "at xs i = (if i < length xs then Some (xs ! i) else None)"

text \<open>A value inside a template literal: \<open>undefined\<close> prints as the word.\<close>

definition template :: "string option \<Rightarrow> string" where
  "template v = (case v of None \<Rightarrow> ''undefined'' | Some s \<Rightarrow> s)"

text \<open>\<open>n.toString()\<close> and the implicit conversion in \<open>join\<close>, for a non-negative integer.\<close>

definition digit_char :: "nat \<Rightarrow> char" where
  "digit_char d = ''0123456789'' ! d"

fun toString :: "nat \<Rightarrow> string" where
  "toString n =
     (if n < 10 then [digit_char n] else toString (n div 10) @ [digit_char (n mod 10)])"

declare toString.simps [simp del]

text \<open>
  \<open>parseInt(string)\<close> with no radix (ECMA-262, 19.2.5): leading white space is dropped, a
  sign is read, a \<open>0x\<close> or \<open>0X\<close> prefix selects radix 16 and otherwise the radix is 10,
  the longest prefix of digits is read, and no digit at all gives \<open>NaN\<close>. The digits are
  read at their exact value (the standard lets an implementation replace decimal digits
  after the 20th significant one by zeros) and the value is converted to a double.
\<close>

definition is_space :: "char \<Rightarrow> bool" where
  "is_space c = ((of_char c :: nat) \<in> {9, 10, 11, 12, 13, 32, 160})"

definition digit_val :: "nat \<Rightarrow> char \<Rightarrow> nat option" where
  "digit_val R c =
     (let k = (of_char c :: nat);
          v = (if 48 \<le> k \<and> k \<le> 57 then Some (k - 48)
               else if 97 \<le> k \<and> k \<le> 122 then Some (k - 87)
               else if 65 \<le> k \<and> k \<le> 90 then Some (k - 55)
               else None)
      in case v of None \<Rightarrow> None | Some d \<Rightarrow> if d < R then Some d else None)"

definition digits_value :: "nat \<Rightarrow> string \<Rightarrow> int" where
  "digits_value R Z =
     foldl (\<lambda>m c. m * int R + (case digit_val R c of None \<Rightarrow> 0 | Some d \<Rightarrow> int d)) 0 Z"

definition parseInt :: "string \<Rightarrow> number" where
  "parseInt inputString =
     (let S = dropWhile is_space inputString;
          sign = (if take 1 S = ''-'' then - 1 else (1 :: int));
          S = (if take 1 S = ''+'' \<or> take 1 S = ''-'' then drop 1 S else S);
          hex = (take 2 S = ''0x'' \<or> take 2 S = ''0X'');
          R = (if hex then 16 else 10);
          S = (if hex then drop 2 S else S);
          Z = takeWhile (\<lambda>c. digit_val R c \<noteq> None) S
      in if Z = [] then NaN else to_number (sign * digits_value R Z))"

text \<open>
  \<open>ToUint32\<close>, the conversion \<open>>>>\<close> applies to its left operand: \<open>NaN\<close> and the
  infinities give 0, an integer is taken modulo \<open>2 ^ 32\<close>.
\<close>

definition ToUint32 :: "number \<Rightarrow> 32 word" where
  "ToUint32 x = (case x of NaN \<Rightarrow> 0 | PosInf \<Rightarrow> 0 | NegInf \<Rightarrow> 0 | Num n \<Rightarrow> word_of_int n)"

section \<open>Address arithmetic and the fixed allocation\<close>

text \<open>
  \<^verbatim>\<open>ip.split('.').reduce((acc, octet) => acc * 256 + parseInt(octet), 0)\<close>
\<close>

definition ipToNumber :: "string \<Rightarrow> number" where
  "ipToNumber ip =
     foldl (\<lambda>acc octet. num_add (num_mul acc (Num 256)) (parseInt octet)) (Num 0)
       (str_split CHR ''.'' ip)"

text \<open>
  \<^verbatim>\<open>[(num >>> 24) & 255, (num >>> 16) & 255, (num >>> 8) & 255, num & 255].join('.')\<close>
\<close>

definition numberToIp :: "number \<Rightarrow> string" where
  "numberToIp num =
     str_join ''.'' (map (\<lambda>w. toString (unat w))
       [drop_bit 24 (ToUint32 num) AND 255,
        drop_bit 16 (ToUint32 num) AND 255,
        drop_bit 8 (ToUint32 num) AND 255,
        ToUint32 num AND 255])"

text \<open>
  What a run can throw. \<open>Error\<close> with its message is what the two
  \<open>throw new Error(...)\<close> statements of the stack throw; \<open>CdkError\<close> is an error thrown
  inside a call of the CDK library, with the library's message; \<open>TypeError\<close> is the
  engine's error on reading a property of \<open>undefined\<close>.
\<close>

datatype error = Error string | CdkError string | TypeError

record allocation =
  web :: "string list"
  app :: "string list"
  data :: "string list"

text \<open>
  \<open>calculateFixedSubnetAllocation\<close>: the prefix test, then three loops over
  \<open>i = 0, 1\<close>, \<open>i = 2, 3\<close> and \<open>i = 4, 5\<close> that push
  \<open>numberToIp(vpcBaseIp + i * subnetSize) + "/20"\<close>. The destructuring
  \<open>[vpcNetwork] = vpcCidr.split('/')\<close> reads the first part, which \<open>split\<close> always
  returns.
\<close>

definition calculateFixedSubnetAllocation :: "string \<Rightarrow> error + allocation" where
  "calculateFixedSubnetAllocation vpcCidr =
     (let vpcNetwork = hd (str_split CHR ''/'' vpcCidr);
          vpcPrefix = at (str_split CHR ''/'' vpcCidr) 1
      in if vpcPrefix \<noteq> Some ''16''
         then Inl (Error (''VPC CIDR must be /16, got /'' @ template vpcPrefix))
         else
           let vpcBaseIp = ipToNumber vpcNetwork;
               subnetSize = Num 4096;
               subnetCidr = (\<lambda>i. numberToIp (num_add vpcBaseIp (num_mul (Num (int i)) subnetSize))
                                  @ ''/20'')
           in Inr \<lparr>web = map subnetCidr [0..<2],
                   app = map subnetCidr [2..<4],
                   data = map subnetCidr [4..<6]\<rparr>)"

section \<open>Address blocks\<close>

text \<open>
  The data model the properties are stated in: an IPv4 block is a base address and a prefix
  length, written \<open>a.b.c.d/p\<close> with every number in decimal without leading zeros.
\<close>

definition dotted :: "nat \<Rightarrow> nat \<Rightarrow> nat \<Rightarrow> nat \<Rightarrow> string" where
  "dotted a b c d = toString a @ ''.'' @ toString b @ ''.'' @ toString c @ ''.'' @ toString d"

definition quad_value :: "nat \<Rightarrow> nat \<Rightarrow> nat \<Rightarrow> nat \<Rightarrow> nat" where
  "quad_value a b c d = a * 2 ^ 24 + b * 2 ^ 16 + c * 2 ^ 8 + d"

text \<open>The base-256 value of a list of parts, of any length.\<close>

definition fold256 :: "nat list \<Rightarrow> nat" where
  "fold256 vs = foldl (\<lambda>acc v. acc * 256 + v) 0 vs"

definition valid_octet :: "string \<Rightarrow> bool" where
  "valid_octet p = (p \<in> set (map toString [0..<256]))"

definition valid_quad :: "string \<Rightarrow> bool" where
  "valid_quad x =
     (length (str_split CHR ''.'' x) = 4 \<and> list_all valid_octet (str_split CHR ''.'' x))"

record AddressBlock =
  base :: nat
  prefixLen :: nat

definition cidr_text :: "AddressBlock \<Rightarrow> string" where
  "cidr_text blk =
     dotted (base blk div 2 ^ 24 mod 256) (base blk div 2 ^ 16 mod 256)
            (base blk div 2 ^ 8 mod 256) (base blk mod 256)
     @ ''/'' @ toString (prefixLen blk)"

definition addresses :: "AddressBlock \<Rightarrow> nat set" where
  "addresses blk = {base blk ..< base blk + 2 ^ (32 - prefixLen blk)}"

definition valid_block :: "nat \<Rightarrow> AddressBlock \<Rightarrow> bool" where
  "valid_block p blk =
     (prefixLen blk = p \<and> base blk < 2 ^ 32 \<and> base blk mod 2 ^ (32 - p) = 0)"

definition sub_block :: "AddressBlock \<Rightarrow> nat \<Rightarrow> AddressBlock" where
  "sub_block blk i = \<lparr>base = base blk + i * 4096, prefixLen = 20\<rparr>"

section \<open>The stack constructor\<close>

text \<open>
  \<open>ConfigProps\<close> (\<open>shared/types\<close>) and the constructor's \<open>props\<close>.
\<close>

record ConfigProps =
  project :: string
  cidr :: string
  region :: string
  env :: string
  awsApplicationTag :: "string option"
  accounts :: "string list option"

record props =
  config :: ConfigProps
  namePrefix :: string

text \<open>
  What the CDK library, outside this repository, decides for the constructor; these are
  parameters of the model. \<open>this.region\<close>, \<open>this.account\<close> and
  \<open>cdk.Stack.of(this).availabilityZones\<close> are resolved by the \<open>cdk.Stack\<close> base class.
  \<open>ipAddressesCidr\<close> is the outcome of \<open>ec2.IpAddresses.cidr(text)\<close>, which validates
  the text: the message of the error it throws, or \<open>None\<close> when it accepts the text.
\<close>

record stack_env =
  stackRegion :: string
  stackAccount :: string
  availabilityZones :: "string list"
  ipAddressesCidr :: "string \<Rightarrow> string option"

text \<open>
  A CloudFormation token: \<open>x.ref\<close>, \<open>vpc.vpcId\<close> and \<open>instance.instanceId\<close> are
  \<open>Ref\<close> of the construct's id, \<open>vpc.vpcCidrBlock\<close> is an attribute of it.
\<close>

datatype token = Ref string | GetAtt string string

datatype route_target = GatewayId token | InstanceId token

datatype peer = Ipv4 token

datatype port = AllTraffic

datatype ingress_rule = IngressRule peer port string

datatype arn = SubnetArn string string token

type_synonym tags = "(string \<times> string) list"

text \<open>\<open>ec2.Subnet.fromSubnetAttributes(this, id, {subnetId, availabilityZone, routeTableId})\<close>\<close>

datatype isubnet = ISubnet string token "string option" token

text \<open>
  The constructs the constructor creates in its scope, each with its id and the properties
  the source passes. A library constructor is modelled as recording the node; the two
  library calls that can stop the constructor are branches of \<open>NetworkingStack\<close> below,
  and what else the library derives from a node is not part of this repository. Properties
  set right after creation (\<open>enableDnsHostnames\<close>, \<open>addIngressRule\<close>, \<open>addUserData\<close>,
  \<open>Tags.of(...).add\<close>) are fields of the node.
\<close>

datatype construct =
    Vpc string string nat string "string list" bool
      \<comment> \<open>id, ipAddresses, maxAzs, vpcName, subnetConfiguration, enableDnsHostnames\<close>
  | CfnInternetGateway string tags
  | CfnVPCGatewayAttachment string token token
      \<comment> \<open>id, vpcId, internetGatewayId\<close>
  | CfnRouteTable string token tags
      \<comment> \<open>id, vpcId, tags\<close>
  | CfnSubnet string token "string option" string "bool option" tags
      \<comment> \<open>id, vpcId, cidrBlock, availabilityZone, mapPublicIpOnLaunch, tags\<close>
  | CfnSubnetRouteTableAssociation string token token
      \<comment> \<open>id, subnetId, routeTableId\<close>
  | ImportedSubnet isubnet
  | CfnRoute string token string route_target
      \<comment> \<open>id, routeTableId, destinationCidrBlock, gatewayId or instanceId\<close>
  | SecurityGroup string string string bool string tags "ingress_rule list"
      \<comment> \<open>id, vpc, description, allowAllOutbound, securityGroupName, tags, ingress rules\<close>
  | Role string string "string list" string
      \<comment> \<open>id, assumedBy, managedPolicies, roleName\<close>
  | Instance string string string string string "isubnet option list" string string bool
      "string list"
      \<comment> \<open>id, vpc, instanceType, machineImage, securityGroup, vpcSubnets.subnets, role,
          instanceName, sourceDestCheck, userData\<close>
  | CfnVPCEndpoint string token string string "token list" tags
      \<comment> \<open>id, vpcId, serviceName, vpcEndpointType, routeTableIds, tags\<close>
  | CfnResourceShare string string "arn list" "string list" bool tags
      \<comment> \<open>id, name, resourceArns, principals, allowExternalPrincipals, tags\<close>

text \<open>\<open>subnet.ref\<close> of a \<open>CfnSubnet\<close>.\<close>

fun ref :: "construct \<Rightarrow> token" where
  "ref (CfnSubnet i _ _ _ _ _) = Ref i"
| "ref _ = Ref []"

text \<open>The public fields of the finished stack object.\<close>

record stack =
  vpc :: construct
  webSubnets :: "isubnet list"
  appSubnets :: "isubnet list"
  dataSubnets :: "isubnet list"
  natInstance :: construct
  subnetAllocation :: allocation

text \<open>
  The three \<open>azs.forEach((az, index) => ...)\<close> loops differ in the tier's name, its
  allocation list, its route table and \<open>mapPublicIpOnLaunch\<close> (set for Web only); each
  round creates the subnet and then its route table association.
\<close>

definition subnetLoop ::
  "string \<Rightarrow> string \<Rightarrow> bool option \<Rightarrow> string list \<Rightarrow> string \<Rightarrow> string list
     \<Rightarrow> (construct \<times> construct) list" where
  "subnetLoop Tier tier public blocks prefix azs =
     map (\<lambda>(az, index).
           (CfnSubnet (Tier @ ''Subnet'' @ toString index) (Ref ''VPC'') (at blocks index) az
              public [(''Name'', prefix @ ''-'' @ tier @ ''-'' @ toString (index + 1))],
            CfnSubnetRouteTableAssociation (Tier @ ''SubnetRTA'' @ toString index)
              (Ref (Tier @ ''Subnet'' @ toString index)) (Ref (Tier @ ''RouteTable''))))
         (zip azs [0..<length azs])"

text \<open>
  \<open>subnetsArray.map((subnet, index) => ec2.Subnet.fromSubnetAttributes(...))\<close>
\<close>

definition subnetRefs :: "string \<Rightarrow> construct list \<Rightarrow> string list \<Rightarrow> isubnet list" where
  "subnetRefs Tier subnetsArray azs =
     map (\<lambda>(subnet, index).
           ISubnet (Tier @ ''SubnetRef'' @ toString index) (ref subnet) (at azs index)
             (Ref (Tier @ ''RouteTable'')))
         (zip subnetsArray [0..<length subnetsArray])"

definition subnetArn :: "stack_env \<Rightarrow> construct \<Rightarrow> arn" where
  "subnetArn e subnet = SubnetArn (stackRegion e) (stackAccount e) (ref subnet)"

definition natUserData :: "string list" where
  "natUserData =
     [''sudo dnf update -y'',
      ''sudo dnf install -y firewalld'',
      ''sudo sysctl -w net.ipv4.ip_forward=1'',
      ''echo '' @ [CHR 0x27] @ ''net.ipv4.ip_forward = 1'' @ [CHR 0x27]
        @ '' | sudo tee -a /etc/sysctl.conf'',
      ''sudo systemctl start firewalld'',
      ''sudo systemctl enable firewalld'',
      ''sudo firewall-cmd --add-masquerade --permanent'',
      ''sudo firewall-cmd --permanent --zone=public --add-interface=ens5'',
      ''sudo firewall-cmd --permanent --direct --add-rule ipv4 filter FORWARD 0 -j ACCEPT'',
      ''sudo firewall-cmd --reload'']"

text \<open>
  The constructor. The result is the outcome (the thrown error, or the stack object) and the
  constructs created in the stack's scope, in creation order; the stack itself is set up by
  \<open>super(scope, id, props)\<close> before the first statement modelled here. The prefix test
  comes first; the allocation is computed next and throws on the same test. Two calls of
  the library can throw after that. \<open>ec2.IpAddresses.cidr(props.config.cidr)\<close> is
  evaluated as an argument of \<open>new ec2.Vpc\<close>, so before any construct exists.
  \<open>new ec2.Instance\<close> reads the \<open>subnetId\<close> of every entry of \<open>vpcSubnets.subnets\<close>:
  when the environment offers no zone, \<open>this.webSubnets[0]\<close> is \<open>undefined\<close> and the read
  is a \<open>TypeError\<close>, after the constructs before the instance have been created.
\<close>

definition NetworkingStack :: "props \<Rightarrow> stack_env \<Rightarrow> (error + stack) \<times> construct list" where
  "NetworkingStack props e =
     (let vpcPrefix = at (str_split CHR ''/'' (cidr (config props))) 1 in
      if vpcPrefix \<noteq> Some ''16''
      then (Inl (Error (''VPC CIDR must be /16, got /'' @ template vpcPrefix
                        @ ''. This CDK is designed for /16 VPCs with /20 subnets.'')), [])
      else
        case calculateFixedSubnetAllocation (cidr (config props)) of
          Inl err \<Rightarrow> (Inl err, [])
        | Inr allocation \<Rightarrow>
          (case ipAddressesCidr e (cidr (config props)) of
             Some message \<Rightarrow> (Inl (CdkError message), [])
           | None \<Rightarrow>
           (let theVpc = Vpc ''VPC'' (cidr (config props)) 2 (namePrefix props @ ''-vpc'') [] True;
                internetGateway =
                  CfnInternetGateway ''InternetGateway'' [(''Name'', namePrefix props @ ''-igw'')];
                igwAttachment =
                  CfnVPCGatewayAttachment ''IGWAttachment'' (Ref ''VPC'') (Ref ''InternetGateway'');
                webRouteTable = CfnRouteTable ''WebRouteTable'' (Ref ''VPC'')
                                  [(''Name'', namePrefix props @ ''-web-rtb'')];
                appRouteTable = CfnRouteTable ''AppRouteTable'' (Ref ''VPC'')
                                  [(''Name'', namePrefix props @ ''-app-rtb'')];
                dataRouteTable = CfnRouteTable ''DataRouteTable'' (Ref ''VPC'')
                                  [(''Name'', namePrefix props @ ''-data-rtb'')];
                azs = take 2 (availabilityZones e);
                webLoop = subnetLoop ''Web'' ''web'' (Some True) (web allocation)
                            (namePrefix props) azs;
                webSubnetsArray = map fst webLoop;
                appLoop = subnetLoop ''App'' ''app'' None (app allocation) (namePrefix props) azs;
                appSubnetsArray = map fst appLoop;
                dataLoop = subnetLoop ''Data'' ''data'' None (data allocation)
                             (namePrefix props) azs;
                dataSubnetsArray = map fst dataLoop;
                theWebSubnets = subnetRefs ''Web'' webSubnetsArray azs;
                theAppSubnets = subnetRefs ''App'' appSubnetsArray azs;
                theDataSubnets = subnetRefs ''Data'' dataSubnetsArray azs;
                webInternetRoute = CfnRoute ''WebInternetRoute'' (Ref ''WebRouteTable'')
                                     ''0.0.0.0/0'' (GatewayId (Ref ''InternetGateway''));
                natSG = SecurityGroup ''NatSG'' ''VPC'' ''Security group for NAT instance'' True
                          (namePrefix props @ ''-nat-sg'')
                          [(''Name'', namePrefix props @ ''-nat-sg'')]
                          [IngressRule (Ipv4 (GetAtt ''VPC'' ''CidrBlock'')) AllTraffic
                             ''Allow all traffic from VPC''];
                natRole = Role ''NatInstanceRole'' ''ec2.amazonaws.com''
                            [''AmazonSSMManagedInstanceCore'']
                            (namePrefix props @ ''-nat-instance-role'');
                theNatInstance = Instance ''NatInstance'' ''VPC'' ''t4g.nano''
                                   ''latestAmazonLinux2023/ARM_64'' ''NatSG''
                                   [at theWebSubnets 0] ''NatInstanceRole''
                                   (namePrefix props @ ''-nat-instance'') False natUserData;
                appNatRoute = CfnRoute ''AppNatRoute'' (Ref ''AppRouteTable'') ''0.0.0.0/0''
                                (InstanceId (Ref ''NatInstance''));
                s3Endpoint = CfnVPCEndpoint ''S3Endpoint'' (Ref ''VPC'')
                               (''com.amazonaws.'' @ stackRegion e @ ''.s3'') ''Gateway''
                               [Ref ''AppRouteTable'']
                               [(''Name'', namePrefix props @ ''-vpce-s3'')];
                dynamoDbEndpoint = CfnVPCEndpoint ''DynamoDbEndpoint'' (Ref ''VPC'')
                               (''com.amazonaws.'' @ stackRegion e @ ''.dynamodb'') ''Gateway''
                               [Ref ''AppRouteTable'']
                               [(''Name'', namePrefix props @ ''-vpce-dynamodb'')];
                share =
                  (case accounts (config props) of
                     None \<Rightarrow> []
                   | Some accs \<Rightarrow>
                       if length accs > 0
                       then [CfnResourceShare ''SubnetResourceShare''
                               (namePrefix props @ ''-subnet-share'')
                               (map (subnetArn e) webSubnetsArray
                                @ map (subnetArn e) appSubnetsArray
                                @ map (subnetArn e) dataSubnetsArray)
                               accs False
                               [(''Name'', namePrefix props @ ''-subnet-share''),
                                (''Purpose'', ''Cross-account subnet sharing'')]]
                       else []);
                created =
                  [theVpc, internetGateway, igwAttachment, webRouteTable, appRouteTable,
                   dataRouteTable]
                  @ concat (map (\<lambda>(subnet, rta). [subnet, rta]) webLoop)
                  @ concat (map (\<lambda>(subnet, rta). [subnet, rta]) appLoop)
                  @ concat (map (\<lambda>(subnet, rta). [subnet, rta]) dataLoop)
                  @ map ImportedSubnet theWebSubnets
                  @ map ImportedSubnet theAppSubnets
                  @ map ImportedSubnet theDataSubnets
                  @ [webInternetRoute, natSG, natRole]
            in if at theWebSubnets 0 = None then (Inl TypeError, created)
               else
                 (Inr \<lparr>vpc = theVpc, webSubnets = theWebSubnets, appSubnets = theAppSubnets,
                       dataSubnets = theDataSubnets, natInstance = theNatInstance,
                       subnetAllocation = allocation\<rparr>,
                  created
                  @ [theNatInstance, appNatRoute, s3Endpoint, dynamoDbEndpoint]
                  @ share))))"

section \<open>Reading the finished plan\<close>

datatype tier = Web | App | Data

fun tier_id :: "tier \<Rightarrow> string" where
  "tier_id Web = ''Web''"
| "tier_id App = ''App''"
| "tier_id Data = ''Data''"

fun tier_tag :: "tier \<Rightarrow> string" where
  "tier_tag Web = ''web''"
| "tier_tag App = ''app''"
| "tier_tag Data = ''data''"

fun tier_blocks :: "allocation \<Rightarrow> tier \<Rightarrow> string list" where
  "tier_blocks a Web = web a"
| "tier_blocks a App = app a"
| "tier_blocks a Data = data a"

fun construct_id :: "construct \<Rightarrow> string" where
  "construct_id (Vpc i _ _ _ _ _) = i"
| "construct_id (CfnInternetGateway i _) = i"
| "construct_id (CfnVPCGatewayAttachment i _ _) = i"
| "construct_id (CfnRouteTable i _ _) = i"
| "construct_id (CfnSubnet i _ _ _ _ _) = i"
| "construct_id (CfnSubnetRouteTableAssociation i _ _) = i"
| "construct_id (ImportedSubnet (ISubnet i _ _ _)) = i"
| "construct_id (CfnRoute i _ _ _) = i"
| "construct_id (SecurityGroup i _ _ _ _ _ _) = i"
| "construct_id (Role i _ _ _) = i"
| "construct_id (Instance i _ _ _ _ _ _ _ _ _) = i"
| "construct_id (CfnVPCEndpoint i _ _ _ _ _) = i"
| "construct_id (CfnResourceShare i _ _ _ _ _) = i"

text \<open>A default route of the route table with id \<open>rt\<close>.\<close>

fun is_default_route :: "string \<Rightarrow> construct \<Rightarrow> bool" where
  "is_default_route rt (CfnRoute _ table dest _) = (table = Ref rt \<and> dest = ''0.0.0.0/0'')"
| "is_default_route rt _ = False"

fun is_gateway :: "construct \<Rightarrow> bool" where
  "is_gateway (CfnInternetGateway _ _) = True"
| "is_gateway _ = False"

fun is_instance :: "construct \<Rightarrow> bool" where
  "is_instance (Instance _ _ _ _ _ _ _ _ _ _) = True"
| "is_instance _ = False"

fun is_route_table :: "construct \<Rightarrow> bool" where
  "is_route_table (CfnRouteTable _ _ _) = True"
| "is_route_table _ = False"

fun is_subnet :: "construct \<Rightarrow> bool" where
  "is_subnet (CfnSubnet _ _ _ _ _ _) = True"
| "is_subnet _ = False"

fun is_association :: "construct \<Rightarrow> bool" where
  "is_association (CfnSubnetRouteTableAssociation _ _ _) = True"
| "is_association _ = False"

text \<open>The association constructs of the subnet with id \<open>sid\<close>.\<close>

fun association_of :: "string \<Rightarrow> construct \<Rightarrow> bool" where
  "association_of sid (CfnSubnetRouteTableAssociation _ subnet _) = (subnet = Ref sid)"
| "association_of sid _ = False"

fun is_share :: "construct \<Rightarrow> bool" where
  "is_share (CfnResourceShare _ _ _ _ _ _) = True"
| "is_share _ = False"

fun is_security_group :: "construct \<Rightarrow> bool" where
  "is_security_group (SecurityGroup _ _ _ _ _ _ _) = True"
| "is_security_group _ = False"

fun is_vpc :: "construct \<Rightarrow> bool" where
  "is_vpc (Vpc _ _ _ _ _ _) = True"
| "is_vpc _ = False"

section \<open>An example configuration\<close>

text \<open>
  The configuration shown in the README, the name prefix \<open>bin/aws-cdk-vpc.ts\<close> derives
  from it (\<open>env-project\<close>), and two environments, with two zones and with one, whose
  library accepts a CIDR text when its address part is a valid dotted quad.
\<close>

definition readme_config :: ConfigProps where
  "readme_config =
     \<lparr>project = ''network'', cidr = ''10.10.0.0/16'', region = ''us-east-1'', env = ''prod'',
      awsApplicationTag = None, accounts = Some [''123456789012'']\<rparr>"

definition readme_props :: props where
  "readme_props =
     \<lparr>config = readme_config, namePrefix = env readme_config @ ''-'' @ project readme_config\<rparr>"

definition accept_valid_quads :: "string \<Rightarrow> string option" where
  "accept_valid_quads text =
     (if valid_quad (hd (str_split CHR ''/'' text)) then None
      else Some (hd (str_split CHR ''/'' text) @ '' is not valid''))"

definition two_zone_env :: stack_env where
  "two_zone_env =
     \<lparr>stackRegion = ''us-east-1'', stackAccount = ''111122223333'',
      availabilityZones = [''us-east-1a'', ''us-east-1b''],
      ipAddressesCidr = accept_valid_quads\<rparr>"

definition one_zone_env :: stack_env where
  "one_zone_env =
     \<lparr>stackRegion = ''eu-west-1'', stackAccount = ''999999999999'',
      availabilityZones = [''eu-west-1c''],
      ipAddressesCidr = accept_valid_quads\<rparr>"

section \<open>Strings and numbers\<close>

lemma toString_small: "toString 0 = ''0''" "toString 1 = ''1''" "toString 2 = ''2''"
  by (simp_all add: toString.simps digit_char_def)

lemma upt_small: "[0..<Suc 0] = [0]" "[0..<2] = [0, 1]" "[2..<4] = [2, 3]" "[4..<6] = [4, 5]"
  by (simp_all add: upt_rec)

lemma str_split_nonempty: "str_split sep s \<noteq> []"
  by (induction s) (auto split: list.splits)

lemma str_split_no_sep: "sep \<notin> set s \<Longrightarrow> str_split sep s = [s]"
  by (induction s) auto

lemma str_split_append:
  "sep \<notin> set p \<Longrightarrow> str_split sep (p @ sep # rest) = p # str_split sep rest"
  by (induction p) auto

lemma digit_val_digit_char: "d < 10 \<Longrightarrow> digit_val 10 (digit_char d) = Some d"
proof -
  assume "d < 10"
  then have "d \<in> {0,1,2,3,4,5,6,7,8,9}" by auto
  then show ?thesis
    by (auto simp: digit_val_def digit_char_def)
qed

lemma is_space_digit_char: "d < 10 \<Longrightarrow> \<not> is_space (digit_char d)"
proof -
  assume "d < 10"
  then have "d \<in> {0,1,2,3,4,5,6,7,8,9}" by auto
  then show ?thesis
    by (auto simp: is_space_def digit_char_def)
qed

lemma toString_digits: "c \<in> set (toString n) \<Longrightarrow> \<exists>d<10. c = digit_char d"
proof (induction n rule: toString.induct)
  case (1 n)
  show ?case
  proof (cases "n < 10")
    case True
    with 1 show ?thesis by (auto simp: toString.simps [of n])
  next
    case False
    with 1 show ?thesis
      by (auto simp: toString.simps [of n]) (metis mod_less_divisor zero_less_numeral)
  qed
qed

lemma toString_nonempty: "toString n \<noteq> []"
  by (subst toString.simps) auto

lemma digits_value_snoc:
  "digits_value R (Z @ [c]) =
     digits_value R Z * int R + (case digit_val R c of None \<Rightarrow> 0 | Some d \<Rightarrow> int d)"
  by (simp add: digits_value_def)

lemma digits_value_toString: "digits_value 10 (toString n) = int n"
proof (induction n rule: toString.induct)
  case (1 n)
  show ?case
  proof (cases "n < 10")
    case True
    then show ?thesis
      by (simp add: toString.simps [of n] digits_value_def digit_val_digit_char)
  next
    case False
    have "int n = int (n div 10 * 10 + n mod 10)"
      by (simp only: div_mult_mod_eq)
    also have "\<dots> = int (n div 10) * 10 + int (n mod 10)"
      by (simp only: of_nat_add of_nat_mult of_nat_numeral)
    finally have "int (n div 10) * 10 + int (n mod 10) = int n"
      by (rule sym)
    with 1 False show ?thesis
      by (simp add: toString.simps [of n] digits_value_snoc digit_val_digit_char)
  qed
qed

lemma digit_char_facts:
  assumes "d < 10"
  shows "digit_char d \<noteq> CHR ''-''" "digit_char d \<noteq> CHR ''+''"
    "digit_char d \<noteq> CHR ''x''" "digit_char d \<noteq> CHR ''X''"
    "digit_char d \<noteq> CHR ''.''" "digit_char d \<noteq> CHR ''/''"
proof -
  from assms have "d \<in> {0,1,2,3,4,5,6,7,8,9}" by auto
  then show "digit_char d \<noteq> CHR ''-''" "digit_char d \<noteq> CHR ''+''"
    "digit_char d \<noteq> CHR ''x''" "digit_char d \<noteq> CHR ''X''"
    "digit_char d \<noteq> CHR ''.''" "digit_char d \<noteq> CHR ''/''"
    by (auto simp: digit_char_def)
qed

lemma to_number_exact: "\<bar>x\<bar> < 2 ^ 53 \<Longrightarrow> to_number x = Num x"
proof -
  assume b: "\<bar>x\<bar> < 2 ^ 53"
  then have "round_magnitude \<bar>x\<bar> = Some \<bar>x\<bar>"
    by (simp add: round_magnitude_def)
  moreover have "sgn x * \<bar>x\<bar> = x"
    by (simp add: mult_sgn_abs)
  ultimately show ?thesis by (simp add: to_number_def)
qed

lemma to_number_nat: "n < 2 ^ 53 \<Longrightarrow> to_number (int n) = Num (int n)"
  by (rule to_number_exact) simp

lemma parseInt_digits:
  assumes "s \<noteq> []" and "\<forall>c\<in>set s. \<exists>d<10. c = digit_char d"
  shows "parseInt s = to_number (digits_value 10 s)"
proof -
  from assms obtain c cs where s: "s = c # cs" by (cases s) auto
  from assms s obtain d where d: "d < 10" "c = digit_char d" by auto
  have nospace: "dropWhile is_space s = s"
    using s d by (simp add: is_space_digit_char)
  have nosign: "take 1 s \<noteq> ''-''" "take 1 s \<noteq> ''+''"
    using s d by (auto simp: digit_char_facts)
  have nohex: "take 2 s \<noteq> ''0x''" "take 2 s \<noteq> ''0X''"
  proof -
    show "take 2 s \<noteq> ''0x''"
    proof (cases cs)
      case Nil then show ?thesis using s by simp
    next
      case (Cons c2 cs2)
      with assms s obtain d2 where "d2 < 10" "c2 = digit_char d2" by auto
      then show ?thesis using s Cons by (auto simp: digit_char_facts)
    qed
    show "take 2 s \<noteq> ''0X''"
    proof (cases cs)
      case Nil then show ?thesis using s by simp
    next
      case (Cons c2 cs2)
      with assms s obtain d2 where "d2 < 10" "c2 = digit_char d2" by auto
      then show ?thesis using s Cons by (auto simp: digit_char_facts)
    qed
  qed
  have all: "takeWhile (\<lambda>c. digit_val 10 c \<noteq> None) s = s"
    using assms(2) by (auto simp: takeWhile_eq_all_conv digit_val_digit_char)
  have "parseInt s = (if s = [] then NaN else to_number (1 * digits_value 10 s))"
    unfolding parseInt_def Let_def
    by (simp only: nospace nosign nohex all simp_thms if_False)
  then show ?thesis using assms(1) by simp
qed

lemma parseInt_toString: "n < 2 ^ 53 \<Longrightarrow> parseInt (toString n) = Num (int n)"
  using parseInt_digits [of "toString n"] toString_digits [of _ n]
  by (simp add: toString_nonempty digits_value_toString to_number_nat)

lemma toString_no_dot: "CHR ''.'' \<notin> set (toString n)"
  using toString_digits [of "CHR ''.''" n] by (metis digit_char_facts(5))

lemma toString_no_slash: "CHR ''/'' \<notin> set (toString n)"
  using toString_digits [of "CHR ''/''" n] by (metis digit_char_facts(6))


lemma str_split_dotted:
  "str_split CHR ''.'' (dotted a b c d) = [toString a, toString b, toString c, toString d]"
  by (simp add: dotted_def str_split_append str_split_no_sep toString_no_dot)

lemma reduce_step:
  assumes "k * 256 + v < 2 ^ 53"
  shows "num_add (num_mul (Num (int k)) (Num 256)) (parseInt (toString v)) =
           Num (int (k * 256 + v))"
proof -
  from assms have k: "k * 256 < 2 ^ 53" and v: "v < 2 ^ 53" by simp_all
  have "num_mul (Num (int k)) (Num 256) = Num (int (k * 256))"
    using to_number_nat [OF k] by simp
  moreover have "num_add (Num (int (k * 256))) (Num (int v)) = Num (int (k * 256 + v))"
    using to_number_nat [OF assms] by simp
  ultimately show ?thesis by (simp add: parseInt_toString [OF v])
qed

lemma ipToNumber_dotted:
  assumes "a < 256" "b < 256" "c < 256" "d < 256"
  shows "ipToNumber (dotted a b c d) = Num (int (quad_value a b c d))"
proof -
  have s1: "0 * 256 + a < 2 ^ 53" using assms by simp
  have s2: "a * 256 + b < 2 ^ 53" using assms by simp
  have s3: "(a * 256 + b) * 256 + c < 2 ^ 53" using assms by simp
  have s4: "((a * 256 + b) * 256 + c) * 256 + d < 2 ^ 53" using assms by simp
  have q: "quad_value a b c d = ((a * 256 + b) * 256 + c) * 256 + d"
    by (simp add: quad_value_def)
  have "ipToNumber (dotted a b c d) =
          num_add (num_mul (num_add (num_mul (num_add (num_mul (num_add (num_mul (Num (int 0))
            (Num 256)) (parseInt (toString a))) (Num 256)) (parseInt (toString b))) (Num 256))
            (parseInt (toString c))) (Num 256)) (parseInt (toString d))"
    by (simp add: ipToNumber_def str_split_dotted)
  also have "\<dots> = Num (int (((a * 256 + b) * 256 + c) * 256 + d))"
    unfolding reduce_step [OF s1] unfolding add_0 mult_zero_left
    unfolding reduce_step [OF s2] reduce_step [OF s3] reduce_step [OF s4] ..
  finally show ?thesis by (simp only: q)
qed

lemma unat_octet:
  "unat (drop_bit k (w :: 32 word) AND 255) = unat w div 2 ^ k mod 256"
proof -
  have m: "(255 :: 32 word) = mask 8" by (simp add: mask_eq_exp_minus_1)
  have "unat (drop_bit k w AND mask 8) = unat (take_bit 8 (drop_bit k w))"
    by (simp only: take_bit_eq_mask)
  also have "\<dots> = unat (drop_bit k w) mod 2 ^ 8"
    by (subst unsigned_take_bit_eq) (simp add: take_bit_eq_mod)
  also have "\<dots> = unat w div 2 ^ k mod 2 ^ 8"
    by (subst unat_drop_bit_eq) (simp add: drop_bit_eq_div)
  finally show ?thesis by (simp only: m) simp
qed

lemma numberToIp_octets:
  assumes "N < 2 ^ 32"
  shows "numberToIp (Num (int N)) =
    dotted (N div 2 ^ 24 mod 256) (N div 2 ^ 16 mod 256) (N div 2 ^ 8 mod 256) (N mod 256)"
proof -
  have u: "unat (ToUint32 (Num (int N))) = N"
    using assms by (simp add: ToUint32_def unat_of_nat)
  have "unat (ToUint32 (Num (int N)) AND 255) = N mod 256"
    using unat_octet [of 0 "ToUint32 (Num (int N))"] u by simp
  then show ?thesis
    by (simp add: numberToIp_def dotted_def unat_octet u)
qed

lemma str_join_Cons_Cons: "str_join sep ((c # p) # ps) = c # str_join sep (p # ps)"
  by (cases ps) auto

lemma str_join_split: "str_join [sep] (str_split sep s) = s"
proof (induction s)
  case Nil
  show ?case by simp
next
  case (Cons c cs)
  show ?case
  proof (cases "c = sep")
    case True
    with Cons show ?thesis
      by (cases "str_split sep cs") (auto simp: str_split_nonempty)
  next
    case False
    with Cons show ?thesis
      by (cases "str_split sep cs") (auto simp: str_split_nonempty str_join_Cons_Cons)
  qed
qed

lemma octets_of_quad:
  assumes "a < 256" "b < 256" "c < 256" "d < 256"
  shows "quad_value a b c d < 2 ^ 32"
    "quad_value a b c d div 2 ^ 24 mod 256 = a"
    "quad_value a b c d div 2 ^ 16 mod 256 = b"
    "quad_value a b c d div 2 ^ 8 mod 256 = c"
    "quad_value a b c d mod 256 = d"
proof -
  define X2 where "X2 = a * 256 + b"
  define X3 where "X3 = X2 * 256 + c"
  have N: "quad_value a b c d = X3 * 256 + d"
    by (simp add: quad_value_def X2_def X3_def)
  have d8: "quad_value a b c d div 256 = X3"
    using assms(4) by (simp add: N)
  have d16: "quad_value a b c d div 65536 = X2"
  proof -
    have "quad_value a b c d div (256 * 256) = quad_value a b c d div 256 div 256"
      by (rule div_mult2_eq)
    then show ?thesis using assms(3) by (simp add: d8 X3_def)
  qed
  have d24: "quad_value a b c d div 16777216 = a"
  proof -
    have "quad_value a b c d div (65536 * 256) = quad_value a b c d div 65536 div 256"
      by (rule div_mult2_eq)
    then show ?thesis using assms(2) by (simp add: d16 X2_def)
  qed
  show "quad_value a b c d < 2 ^ 32"
    using assms by (simp add: quad_value_def)
  show "quad_value a b c d div 2 ^ 24 mod 256 = a"
    using assms(1) by (simp add: d24)
  show "quad_value a b c d div 2 ^ 16 mod 256 = b"
    using assms(2) by (simp add: d16 X2_def)
  show "quad_value a b c d div 2 ^ 8 mod 256 = c"
    using assms(3) by (simp add: d8 X3_def)
  show "quad_value a b c d mod 256 = d"
    using assms(4) by (simp add: N)
qed

lemma valid_octet_iff: "valid_octet p \<longleftrightarrow> (\<exists>n<256. p = toString n)"
  by (auto simp: valid_octet_def)

lemma valid_quad_dotted:
  assumes "valid_quad x"
  shows "\<exists>a b c d. a < 256 \<and> b < 256 \<and> c < 256 \<and> d < 256 \<and> x = dotted a b c d"
proof -
  from assms obtain p1 p2 p3 p4 where parts: "str_split CHR ''.'' x = [p1, p2, p3, p4]"
    by (auto simp: valid_quad_def length_Suc_conv numeral_eq_Suc)
  with assms obtain a b c d where
    abcd: "a < 256" "b < 256" "c < 256" "d < 256"
      "p1 = toString a" "p2 = toString b" "p3 = toString c" "p4 = toString d"
    by (auto simp: valid_quad_def valid_octet_iff)
  have "x = str_join ''.'' (str_split CHR ''.'' x)"
    by (simp add: str_join_split)
  then have "x = dotted a b c d"
    by (simp add: parts abcd dotted_def)
  with abcd show ?thesis by blast
qed

lemma roundtrip_dotted:
  assumes "a < 256" "b < 256" "c < 256" "d < 256"
  shows "numberToIp (ipToNumber (dotted a b c d)) = dotted a b c d"
  using octets_of_quad [OF assms]
  by (simp add: ipToNumber_dotted [OF assms] numberToIp_octets)

lemma quad_value_octets:
  assumes "N < 2 ^ 32"
  shows "quad_value (N div 2 ^ 24 mod 256) (N div 2 ^ 16 mod 256) (N div 2 ^ 8 mod 256) (N mod 256) = N"
proof -
  define q1 where "q1 = N div 256"
  define q2 where "q2 = q1 div 256"
  define q3 where "q3 = q2 div 256"
  have e8: "N div 2 ^ 8 = q1" by (simp add: q1_def)
  have e16: "N div 2 ^ 16 = q2"
    using div_mult2_eq [of N 256 256] by (simp add: q1_def q2_def)
  have e24: "N div 2 ^ 24 = q3"
    using div_mult2_eq [of N 65536 256] e16 by (simp add: q3_def)
  have s0: "N = 256 * q1 + N mod 256" by (simp add: q1_def)
  have s1: "q1 = 256 * q2 + q1 mod 256" by (simp add: q2_def)
  have s2: "q2 = 256 * q3 + q2 mod 256" by (simp add: q3_def)
  have "q3 < 256" using assms e24 by (simp add: less_mult_imp_div_less flip: e24)
  then have s3: "q3 mod 256 = q3" by simp
  have "quad_value q3 (q2 mod 256) (q1 mod 256) (N mod 256) = N"
    unfolding quad_value_def using s0 s1 s2 by simp
  then show ?thesis by (simp only: e8 e16 e24 s3)
qed

lemma dotted_no_slash: "CHR ''/'' \<notin> set (dotted a b c d)"
  by (simp add: dotted_def toString_no_slash)

lemma str_split_cidr_text:
  "str_split CHR ''/'' (cidr_text blk) =
     [dotted (base blk div 2 ^ 24 mod 256) (base blk div 2 ^ 16 mod 256)
        (base blk div 2 ^ 8 mod 256) (base blk mod 256), toString (prefixLen blk)]"
  unfolding cidr_text_def
  by (simp add: str_split_append dotted_no_slash str_split_no_sep toString_no_slash)

lemma cidr_text_numberToIp:
  "base blk < 2 ^ 32 \<Longrightarrow>
     numberToIp (Num (int (base blk))) @ ''/'' @ toString (prefixLen blk) = cidr_text blk"
  by (simp add: numberToIp_octets cidr_text_def)

lemma toString_16: "toString 16 = ''16''"
  by (simp add: toString.simps digit_char_def)

lemma toString_20: "toString 20 = ''20''"
  by (simp add: toString.simps digit_char_def)


lemma aligned16_room:
  assumes "B < 2 ^ 32" "B mod 2 ^ 16 = 0"
  shows "B + 65536 \<le> (2 :: nat) ^ 32"
proof -
  from assms(2) obtain k where k: "B = 65536 * k" by (auto simp: mod_eq_0_iff_dvd)
  with assms(1) have "k < 65536" by simp
  then have "k + 1 \<le> 65536" by simp
  then have "65536 * (k + 1) \<le> 65536 * (65536 :: nat)" by (rule mult_le_mono2)
  then show ?thesis by (simp add: k)
qed

lemma subnetCidr_text:
  assumes "valid_block 16 T" "i < 16"
  shows "numberToIp (num_add (Num (int (base T))) (num_mul (Num (int i)) (Num 4096))) @ ''/20''
         = cidr_text (sub_block T i)"
proof -
  from assms have "base T + 65536 \<le> 2 ^ 32"
    using aligned16_room [of "base T"] by (simp add: valid_block_def)
  with assms(2) have lt: "base (sub_block T i) < 2 ^ 32"
    by (simp add: sub_block_def)
  have m: "num_mul (Num (int i)) (Num 4096) = Num (int (i * 4096))"
    using to_number_nat [of "i * 4096"] assms(2) by simp
  have a: "num_add (Num (int (base T))) (Num (int (i * 4096))) =
             Num (int (base (sub_block T i)))"
    using to_number_nat [of "base T + i * 4096"] lt by (simp add: sub_block_def)
  show ?thesis
    unfolding m a
    using cidr_text_numberToIp [OF lt] by (simp add: toString_20 sub_block_def)
qed

lemma allocation_of_block:
  assumes "valid_block 16 T"
  shows "calculateFixedSubnetAllocation (cidr_text T) =
    Inr \<lparr>web = [cidr_text (sub_block T 0), cidr_text (sub_block T 1)],
         app = [cidr_text (sub_block T 2), cidr_text (sub_block T 3)],
         data = [cidr_text (sub_block T 4), cidr_text (sub_block T 5)]\<rparr>"
proof -
  from assms have b: "base T < 2 ^ 32" and p: "prefixLen T = 16"
    by (simp_all add: valid_block_def)
  have ip: "ipToNumber (hd (str_split CHR ''/'' (cidr_text T))) = Num (int (base T))"
    using quad_value_octets [OF b] by (simp add: str_split_cidr_text ipToNumber_dotted)
  have pre: "at (str_split CHR ''/'' (cidr_text T)) 1 = Some ''16''"
    by (simp add: str_split_cidr_text at_def p toString_16)
  show ?thesis
    unfolding calculateFixedSubnetAllocation_def Let_def
    by (simp only: ip pre upt_small list.map simp_thms if_False subnetCidr_text [OF assms])
qed

lemma sub_block_inside:
  "valid_block 16 T \<Longrightarrow> i < 16 \<Longrightarrow> addresses (sub_block T i) \<subseteq> addresses T"
  by (auto simp: addresses_def sub_block_def valid_block_def)

lemma sub_block_disjoint:
  "i \<noteq> j \<Longrightarrow> addresses (sub_block T i) \<inter> addresses (sub_block T j) = {}"
  by (auto simp: addresses_def sub_block_def)

lemma sub_block_union:
  "\<Union> (set (map (\<lambda>i. addresses (sub_block T i)) [0..<6])) = {base T ..< base T + 24576}"
  by (auto simp: addresses_def sub_block_def upt_rec)

section \<open>The constructor's outcome\<close>

lemma take2_cases:
  obtains "take 2 xs = []" | a where "take 2 xs = [a]" | a b where "take 2 xs = [a, b]"
proof (cases xs)
  case Nil
  then show ?thesis using that by simp
next
  case (Cons a ys)
  then show ?thesis using that by (cases ys) (simp_all add: numeral_2_eq_2)
qed

lemma allocation_shape:
  assumes "at (str_split CHR ''/'' c) 1 = Some ''16''"
  shows "\<exists>w0 w1 a0 a1 d0 d1. calculateFixedSubnetAllocation c =
           Inr \<lparr>web = [w0, w1], app = [a0, a1], data = [d0, d1]\<rparr>"
  using assms by (simp add: calculateFixedSubnetAllocation_def Let_def upt_small)

section \<open>The fixed allocation (C1)\<close>

lemma sub_block_valid:
  assumes "valid_block 16 T" "i < 16"
  shows "valid_block 20 (sub_block T i)"
proof -
  from assms have room: "base T + 65536 \<le> 2 ^ 32"
    using aligned16_room [of "base T"] by (simp add: valid_block_def)
  from assms(1) have "(2 :: nat) ^ 16 dvd base T"
    by (simp add: valid_block_def mod_eq_0_iff_dvd)
  moreover have "(4096 :: nat) dvd 2 ^ 16" by simp
  ultimately have "4096 dvd base T" by (rule dvd_trans [rotated])
  then have "4096 dvd base T + i * 4096" by simp
  then have "(base T + i * 4096) mod 4096 = 0" by (simp add: mod_eq_0_iff_dvd)
  with room assms(2) show ?thesis
    by (simp add: valid_block_def sub_block_def)
qed

lemma cidr_text_base:
  assumes "base blk < 2 ^ 32"
  shows "ipToNumber (hd (str_split CHR ''/'' (cidr_text blk))) = Num (int (base blk))"
  using quad_value_octets [OF assms] by (simp add: str_split_cidr_text ipToNumber_dotted)

lemma sub_block_texts_distinct:
  assumes "valid_block 16 T"
  shows "distinct (map (\<lambda>i. cidr_text (sub_block T i)) [0..<6])"
proof -
  have "inj_on (\<lambda>i. cidr_text (sub_block T i)) (set [0..<6])"
  proof (rule inj_onI)
    fix i j
    assume i: "i \<in> set [0..<6]" and j: "j \<in> set [0..<6]"
      and eq: "cidr_text (sub_block T i) = cidr_text (sub_block T j)"
    from i j assms have "base (sub_block T i) < 2 ^ 32" "base (sub_block T j) < 2 ^ 32"
      using sub_block_valid [of T i] sub_block_valid [of T j] by (simp_all add: valid_block_def)
    then have "Num (int (base (sub_block T i))) = Num (int (base (sub_block T j)))"
      using eq cidr_text_base [of "sub_block T i"] cidr_text_base [of "sub_block T j"] by simp
    then show "i = j" by (simp add: sub_block_def)
  qed
  then show ?thesis by (simp add: distinct_map)
qed

lemma scenario_10_10:
  "calculateFixedSubnetAllocation ''10.10.0.0/16'' =
     Inr \<lparr>web = [''10.10.0.0/20'', ''10.10.16.0/20''],
          app = [''10.10.32.0/20'', ''10.10.48.0/20''],
          data = [''10.10.64.0/20'', ''10.10.80.0/20'']\<rparr>"
  by code_simp

text \<open>
  C1. For every valid /16 block \<open>T\<close> (base aligned to \<open>2 ^ 16\<close>, below \<open>2 ^ 32\<close>),
  written as a CIDR string, the allocator returns six blocks: the texts of the /20 blocks
  at \<open>base T + i * 4096\<close> for \<open>i = 0, ..., 5\<close>, the Web tier getting \<open>i = 0, 1\<close>, the App
  tier \<open>i = 2, 3\<close> and the Data tier \<open>i = 4, 5\<close>. The six texts are distinct, each
  block is a valid /20 block inside \<open>T\<close>, the blocks are pairwise disjoint, and together
  they are the addresses from \<open>base T\<close> up to \<open>base T + 24576\<close>. For \<open>10.10.0.0/16\<close> the
  blocks are \<open>10.10.0.0/20\<close>, \<open>10.10.16.0/20\<close>, \<open>10.10.32.0/20\<close>, \<open>10.10.48.0/20\<close>,
  \<open>10.10.64.0/20\<close> and \<open>10.10.80.0/20\<close>.
\<close>

theorem allocation_six_blocks:
  assumes "valid_block 16 T"
  shows "calculateFixedSubnetAllocation (cidr_text T) =
           Inr \<lparr>web = [cidr_text (sub_block T 0), cidr_text (sub_block T 1)],
                app = [cidr_text (sub_block T 2), cidr_text (sub_block T 3)],
                data = [cidr_text (sub_block T 4), cidr_text (sub_block T 5)]\<rparr>
       \<and> distinct (map (\<lambda>i. cidr_text (sub_block T i)) [0..<6])
       \<and> (\<forall>i<6. valid_block 20 (sub_block T i) \<and> addresses (sub_block T i) \<subseteq> addresses T)
       \<and> (\<forall>i<6. \<forall>j<6. i \<noteq> j \<longrightarrow>
             addresses (sub_block T i) \<inter> addresses (sub_block T j) = {})
       \<and> \<Union> (set (map (\<lambda>i. addresses (sub_block T i)) [0..<6]))
           = {base T ..< base T + 24576}
       \<and> calculateFixedSubnetAllocation ''10.10.0.0/16'' =
           Inr \<lparr>web = [''10.10.0.0/20'', ''10.10.16.0/20''],
                app = [''10.10.32.0/20'', ''10.10.48.0/20''],
                data = [''10.10.64.0/20'', ''10.10.80.0/20'']\<rparr>"
proof -
  have a: "calculateFixedSubnetAllocation (cidr_text T) =
           Inr \<lparr>web = [cidr_text (sub_block T 0), cidr_text (sub_block T 1)],
                app = [cidr_text (sub_block T 2), cidr_text (sub_block T 3)],
                data = [cidr_text (sub_block T 4), cidr_text (sub_block T 5)]\<rparr>"
    by (rule allocation_of_block [OF assms])
  have b: "distinct (map (\<lambda>i. cidr_text (sub_block T i)) [0..<6])"
    by (rule sub_block_texts_distinct [OF assms])
  have c: "\<forall>i<6. valid_block 20 (sub_block T i) \<and> addresses (sub_block T i) \<subseteq> addresses T"
    using assms sub_block_valid [of T] sub_block_inside [of T] by simp
  have d: "\<forall>i<6. \<forall>j<6. i \<noteq> j \<longrightarrow>
      addresses (sub_block T i) \<inter> addresses (sub_block T j) = {}"
    using sub_block_disjoint [of _ _ T] by blast
  have e: "\<Union> (set (map (\<lambda>i. addresses (sub_block T i)) [0..<6]))
           = {base T ..< base T + 24576}"
    by (rule sub_block_union)
  show ?thesis
    by (intro conjI) (rule a, rule b, rule c, rule d, rule e, rule scenario_10_10)
qed

theorem allocation_six_blocks_witness:
  "valid_block 16 \<lparr>base = 168427520, prefixLen = 16\<rparr>
   \<and> cidr_text \<lparr>base = 168427520, prefixLen = 16\<rparr> = ''10.10.0.0/16''
   \<and> calculateFixedSubnetAllocation (cidr_text \<lparr>base = 168427520, prefixLen = 16\<rparr>) =
       Inr \<lparr>web = [cidr_text (sub_block \<lparr>base = 168427520, prefixLen = 16\<rparr> 0),
                   cidr_text (sub_block \<lparr>base = 168427520, prefixLen = 16\<rparr> 1)],
            app = [cidr_text (sub_block \<lparr>base = 168427520, prefixLen = 16\<rparr> 2),
                   cidr_text (sub_block \<lparr>base = 168427520, prefixLen = 16\<rparr> 3)],
            data = [cidr_text (sub_block \<lparr>base = 168427520, prefixLen = 16\<rparr> 4),
                    cidr_text (sub_block \<lparr>base = 168427520, prefixLen = 16\<rparr> 5)]\<rparr>"
proof -
  have v: "valid_block 16 \<lparr>base = 168427520, prefixLen = 16\<rparr>"
    by (simp add: valid_block_def)
  have t: "cidr_text \<lparr>base = 168427520, prefixLen = 16\<rparr> = ''10.10.0.0/16''"
    by (simp add: cidr_text_def dotted_def toString.simps digit_char_def)
  show ?thesis
    by (intro conjI) (rule v, rule t, rule allocation_six_blocks [OF v, THEN conjunct1])
qed

section \<open>Round trip of the address conversions (C6)\<close>

text \<open>
  C6. For every valid dotted quad \<open>x\<close> (four parts, each the decimal numeral, without
  leading zeros, of an integer from 0 to 255), \<open>numberToIp (ipToNumber x) = x\<close>.
\<close>

theorem address_roundtrip: "valid_quad x \<Longrightarrow> numberToIp (ipToNumber x) = x"
proof -
  assume "valid_quad x"
  then obtain a b c d where "a < 256" "b < 256" "c < 256" "d < 256" "x = dotted a b c d"
    using valid_quad_dotted [of x] by blast
  then show ?thesis by (simp add: roundtrip_dotted)
qed

theorem address_roundtrip_witness:
  "valid_quad ''255.255.255.255''
   \<and> numberToIp (ipToNumber ''255.255.255.255'') = ''255.255.255.255''
   \<and> valid_quad ''0.0.0.0''
   \<and> numberToIp (ipToNumber ''0.0.0.0'') = ''0.0.0.0''"
proof -
  have v: "valid_quad ''255.255.255.255''" by code_simp
  have w: "valid_quad ''0.0.0.0''" by code_simp
  show ?thesis
    by (intro conjI)
       (rule v, rule address_roundtrip [OF v], rule w, rule address_roundtrip [OF w])
qed

text \<open>
  Outside the valid quads the conversions normalise: \<open>parseInt\<close> accepts a leading zero,
  and the number is printed without it.
\<close>

lemma leading_zero_normalised:
  "\<not> valid_quad ''010.0.0.1'' \<and> numberToIp (ipToNumber ''010.0.0.1'') = ''10.0.0.1''"
  by code_simp

section \<open>Outcomes of the constructor\<close>

lemma take2_two: "2 \<le> length xs \<Longrightarrow> take 2 xs = [xs ! 0, xs ! 1]"
  by (cases xs; cases "tl xs") (auto simp: numeral_2_eq_2)

lemma take2_one: "xs \<noteq> [] \<Longrightarrow> take 2 xs = [hd xs] \<or> (\<exists>b. take 2 xs = [hd xs, b])"
  by (cases xs; cases "tl xs") (auto simp: numeral_2_eq_2)

lemma at_list: "at [] n = None" "at (x # xs) 0 = Some x" "at (x # xs) (Suc n) = at xs n"
  by (simp_all add: at_def)

lemma toString_Suc: "toString (Suc 0) = ''1''" "toString (Suc (Suc 0)) = ''2''"
  by (simp_all add: toString.simps digit_char_def)

lemma NetworkingStack_Inr_prefix:
  assumes "NetworkingStack props e = (Inr st, nodes)"
  shows "at (str_split CHR ''/'' (cidr (config props))) 1 = Some ''16''"
  using assms by (auto simp: NetworkingStack_def Let_def split: if_splits)

lemma NetworkingStack_Inr_accepted:
  assumes "NetworkingStack props e = (Inr st, nodes)"
  shows "ipAddressesCidr e (cidr (config props)) = None"
proof (cases "ipAddressesCidr e (cidr (config props))")
  case None
  then show ?thesis .
next
  case (Some message)
  have pre: "at (str_split CHR ''/'' (cidr (config props))) 1 = Some ''16''"
    using assms by (rule NetworkingStack_Inr_prefix)
  from allocation_shape [OF pre] obtain w0 w1 a0 a1 d0 d1 where
    al: "calculateFixedSubnetAllocation (cidr (config props)) =
           Inr \<lparr>web = [w0, w1], app = [a0, a1], data = [d0, d1]\<rparr>" by blast
  have pre': "at (str_split CHR ''/'' (cidr (config props))) (Suc 0) = Some ''16''"
    using pre by simp
  have "fst (NetworkingStack props e) = Inl (CdkError message)"
    by (simp add: NetworkingStack_def Let_def pre' al Some)
  with assms show ?thesis by simp
qed

lemma NetworkingStack_Inr_zones:
  assumes "NetworkingStack props e = (Inr st, nodes)"
  shows "availabilityZones e \<noteq> []"
proof
  assume z: "availabilityZones e = []"
  have pre: "at (str_split CHR ''/'' (cidr (config props))) 1 = Some ''16''"
    using assms by (rule NetworkingStack_Inr_prefix)
  from allocation_shape [OF pre] obtain w0 w1 a0 a1 d0 d1 where
    al: "calculateFixedSubnetAllocation (cidr (config props)) =
           Inr \<lparr>web = [w0, w1], app = [a0, a1], data = [d0, d1]\<rparr>" by blast
  have pre': "at (str_split CHR ''/'' (cidr (config props))) (Suc 0) = Some ''16''"
    using pre by simp
  note lib = NetworkingStack_Inr_accepted [OF assms]
  have "fst (NetworkingStack props e) = Inl TypeError"
    by (simp add: NetworkingStack_def Let_def pre' al lib z subnetLoop_def subnetRefs_def at_list)
  with assms show False by simp
qed

lemma NetworkingStack_succeeds:
  assumes "at (str_split CHR ''/'' (cidr (config props))) 1 = Some ''16''"
    and "ipAddressesCidr e (cidr (config props)) = None"
    and "availabilityZones e \<noteq> []"
  shows "\<exists>st nodes. NetworkingStack props e = (Inr st, nodes)"
proof -
  from allocation_shape [OF assms(1)] obtain w0 w1 a0 a1 d0 d1 where
    al: "calculateFixedSubnetAllocation (cidr (config props)) =
           Inr \<lparr>web = [w0, w1], app = [a0, a1], data = [d0, d1]\<rparr>" by blast
  have pre': "at (str_split CHR ''/'' (cidr (config props))) (Suc 0) = Some ''16''"
    using assms(1) by simp
  have "\<exists>st. fst (NetworkingStack props e) = Inr st"
    using take2_one [OF assms(3)]
  proof
    assume z: "take 2 (availabilityZones e) = [hd (availabilityZones e)]"
    show ?thesis
      by (simp add: NetworkingStack_def Let_def pre' al assms(2) z subnetLoop_def subnetRefs_def
          upt_small at_list del: length_take)
  next
    assume "\<exists>b. take 2 (availabilityZones e) = [hd (availabilityZones e), b]"
    then obtain b where z: "take 2 (availabilityZones e) = [hd (availabilityZones e), b]"
      by blast
    show ?thesis
      by (simp add: NetworkingStack_def Let_def pre' al assms(2) z subnetLoop_def subnetRefs_def
          upt_small at_list del: length_take)
  qed
  then show ?thesis by (metis prod.collapse)
qed

lemma readme_prefix: "at (str_split CHR ''/'' (cidr (config readme_props))) 1 = Some ''16''"
  by (simp add: readme_props_def readme_config_def at_def)

lemma readme_accepted:
  "ipAddressesCidr two_zone_env (cidr (config readme_props)) = None"
  "ipAddressesCidr one_zone_env (cidr (config readme_props)) = None"
  by code_simp+

lemma readme_finishes:
  "\<exists>st nodes. NetworkingStack readme_props two_zone_env = (Inr st, nodes)"
  by (rule NetworkingStack_succeeds [OF readme_prefix readme_accepted(1)])
     (simp add: two_zone_env_def)

section \<open>Default routes (C4)\<close>

text \<open>
  C4. In the finished plan the Web route table has exactly one default route
  (\<open>0.0.0.0/0\<close>), to the internet gateway; the App route table has exactly one, to the
  NAT instance; the Data route table has none. The gateway, the instance and the three
  route tables the routes name are the only constructs of their kinds in the plan.
\<close>

theorem default_routes:
  assumes "NetworkingStack props e = (Inr st, nodes)"
  shows "filter (is_default_route ''WebRouteTable'') nodes =
           [CfnRoute ''WebInternetRoute'' (Ref ''WebRouteTable'') ''0.0.0.0/0''
              (GatewayId (Ref ''InternetGateway''))]
       \<and> filter (is_default_route ''AppRouteTable'') nodes =
           [CfnRoute ''AppNatRoute'' (Ref ''AppRouteTable'') ''0.0.0.0/0''
              (InstanceId (Ref ''NatInstance''))]
       \<and> filter (is_default_route ''DataRouteTable'') nodes = []
       \<and> map construct_id (filter is_gateway nodes) = [''InternetGateway'']
       \<and> map construct_id (filter is_instance nodes) = [''NatInstance'']
       \<and> map construct_id (filter is_route_table nodes) =
           [''WebRouteTable'', ''AppRouteTable'', ''DataRouteTable'']"
proof -
  have pre: "at (str_split CHR ''/'' (cidr (config props))) 1 = Some ''16''"
    using assms by (rule NetworkingStack_Inr_prefix)
  from allocation_shape [OF pre] obtain w0 w1 a0 a1 d0 d1 where
    al: "calculateFixedSubnetAllocation (cidr (config props)) =
           Inr \<lparr>web = [w0, w1], app = [a0, a1], data = [d0, d1]\<rparr>" by blast
  have pre': "at (str_split CHR ''/'' (cidr (config props))) (Suc 0) = Some ''16''"
    using pre by simp
  note lib = NetworkingStack_Inr_accepted [OF assms]
  show ?thesis
  proof (cases "availabilityZones e" rule: take2_cases)
    case 1
    with assms show ?thesis
      by (auto simp: NetworkingStack_def Let_def pre' al lib subnetLoop_def subnetRefs_def at_list
          split: option.splits)
  next
    case (2 a)
    with assms show ?thesis
      by (auto simp: NetworkingStack_def Let_def pre' al lib subnetLoop_def subnetRefs_def at_list upt_small
          split: option.splits)
  next
    case (3 a b)
    with assms show ?thesis
      by (auto simp: NetworkingStack_def Let_def pre' al lib subnetLoop_def subnetRefs_def at_list upt_small
          split: option.splits)
  qed
qed

theorem default_routes_witness:
  "\<exists>st nodes. NetworkingStack readme_props two_zone_env = (Inr st, nodes)
     \<and> filter (is_default_route ''WebRouteTable'') nodes =
           [CfnRoute ''WebInternetRoute'' (Ref ''WebRouteTable'') ''0.0.0.0/0''
              (GatewayId (Ref ''InternetGateway''))]
     \<and> filter (is_default_route ''AppRouteTable'') nodes =
           [CfnRoute ''AppNatRoute'' (Ref ''AppRouteTable'') ''0.0.0.0/0''
              (InstanceId (Ref ''NatInstance''))]
     \<and> filter (is_default_route ''DataRouteTable'') nodes = []"
proof -
  from readme_finishes obtain st nodes where
    r: "NetworkingStack readme_props two_zone_env = (Inr st, nodes)" by blast
  from r default_routes [OF r] show ?thesis by blast
qed


section \<open>The prefix test (C3, C10)\<close>

lemma toString_inj: "toString n = toString m \<Longrightarrow> n = m"
  by (metis digits_value_toString of_nat_eq_iff)

lemma toString_24: "toString 24 = ''24''"
  by (simp add: toString.simps digit_char_def)

lemma at_prefix_text:
  assumes "CHR ''/'' \<notin> set net" "CHR ''/'' \<notin> set p"
  shows "at (str_split CHR ''/'' (net @ ''/'' @ p)) 1 = Some p"
  using assms by (simp add: str_split_append str_split_no_sep at_def)

lemma at_no_slash:
  assumes "CHR ''/'' \<notin> set c"
  shows "at (str_split CHR ''/'' c) 1 = None"
  using assms by (simp add: str_split_no_sep at_def)

lemma NetworkingStack_rejects:
  assumes "at (str_split CHR ''/'' (cidr (config props))) 1 \<noteq> Some ''16''"
  shows "NetworkingStack props e =
           (Inl (Error (''VPC CIDR must be /16, got /''
                        @ template (at (str_split CHR ''/'' (cidr (config props))) 1)
                        @ ''. This CDK is designed for /16 VPCs with /20 subnets.'')), [])"
  using assms by (simp add: NetworkingStack_def Let_def)

lemma allocation_rejects:
  assumes "at (str_split CHR ''/'' c) 1 \<noteq> Some ''16''"
  shows "calculateFixedSubnetAllocation c =
           Inl (Error (''VPC CIDR must be /16, got /'' @ template (at (str_split CHR ''/'' c) 1)))"
  using assms by (simp add: calculateFixedSubnetAllocation_def Let_def)

text \<open>
  C3. A top-level block whose prefix length \<open>n\<close> is not 16, whatever the address text
  before the slash, makes the constructor throw the error whose message carries \<open>n\<close>, with
  no construct created: the outcome is the error and the list of created constructs is
  empty. The allocator's own test (second conjunct) throws on the same input.
\<close>

theorem invalid_prefix_aborts:
  assumes "cidr (config props) = net @ ''/'' @ toString n"
    and "CHR ''/'' \<notin> set net" and "n \<noteq> 16"
  shows "NetworkingStack props e =
           (Inl (Error (''VPC CIDR must be /16, got /'' @ toString n
                        @ ''. This CDK is designed for /16 VPCs with /20 subnets.'')), [])
       \<and> calculateFixedSubnetAllocation (cidr (config props)) =
           Inl (Error (''VPC CIDR must be /16, got /'' @ toString n))"
proof -
  have p: "at (str_split CHR ''/'' (cidr (config props))) 1 = Some (toString n)"
    using assms(1) at_prefix_text [OF assms(2) toString_no_slash [of n]] by simp
  have "toString n \<noteq> ''16''"
    using assms(3) toString_inj [of n 16] by (auto simp: toString_16)
  then have ne: "at (str_split CHR ''/'' (cidr (config props))) 1 \<noteq> Some ''16''"
    using p by simp
  show ?thesis
    using NetworkingStack_rejects [OF ne, of e] allocation_rejects [OF ne]
    unfolding p template_def by simp
qed

theorem invalid_prefix_aborts_witness:
  "NetworkingStack (readme_props\<lparr>config := readme_config\<lparr>cidr := ''10.10.0.0/24''\<rparr>\<rparr>) two_zone_env =
     (Inl (Error ''VPC CIDR must be /16, got /24. This CDK is designed for /16 VPCs with /20 subnets.''), [])
   \<and> calculateFixedSubnetAllocation ''10.10.0.0/24'' = Inl (Error ''VPC CIDR must be /16, got /24'')"
  using invalid_prefix_aborts
    [of "readme_props\<lparr>config := readme_config\<lparr>cidr := ''10.10.0.0/24''\<rparr>\<rparr>" "''10.10.0.0''" 24
      two_zone_env]
  by (simp add: toString_24)

lemma allocation_fails_iff:
  "(\<exists>err. calculateFixedSubnetAllocation c = Inl err) \<longleftrightarrow>
     at (str_split CHR ''/'' c) 1 \<noteq> Some ''16''"
proof (cases "at (str_split CHR ''/'' c) 1 = Some ''16''")
  case True
  from allocation_shape [OF True] show ?thesis using True by auto
next
  case False
  from allocation_rejects [OF False] show ?thesis using False by simp
qed

lemma NetworkingStack_library_rejects:
  assumes "at (str_split CHR ''/'' (cidr (config props))) 1 = Some ''16''"
    and "ipAddressesCidr e (cidr (config props)) = Some message"
  shows "NetworkingStack props e = (Inl (CdkError message), [])"
proof -
  from allocation_shape [OF assms(1)] obtain w0 w1 a0 a1 d0 d1 where
    al: "calculateFixedSubnetAllocation (cidr (config props)) =
           Inr \<lparr>web = [w0, w1], app = [a0, a1], data = [d0, d1]\<rparr>" by blast
  have pre': "at (str_split CHR ''/'' (cidr (config props))) (Suc 0) = Some ''16''"
    using assms(1) by simp
  show ?thesis
    by (simp add: NetworkingStack_def Let_def pre' al assms(2))
qed

lemma NetworkingStack_no_zone:
  assumes "at (str_split CHR ''/'' (cidr (config props))) 1 = Some ''16''"
    and "ipAddressesCidr e (cidr (config props)) = None"
    and "availabilityZones e = []"
  shows "fst (NetworkingStack props e) = Inl TypeError"
proof -
  from allocation_shape [OF assms(1)] obtain w0 w1 a0 a1 d0 d1 where
    al: "calculateFixedSubnetAllocation (cidr (config props)) =
           Inr \<lparr>web = [w0, w1], app = [a0, a1], data = [d0, d1]\<rparr>" by blast
  have pre': "at (str_split CHR ''/'' (cidr (config props))) (Suc 0) = Some ''16''"
    using assms(1) by simp
  show ?thesis
    by (simp add: NetworkingStack_def Let_def pre' al assms(2,3) subnetLoop_def subnetRefs_def
        at_list)
qed

lemma NetworkingStack_no_own_error:
  assumes "at (str_split CHR ''/'' (cidr (config props))) 1 = Some ''16''"
  shows "fst (NetworkingStack props e) \<noteq> Inl (Error m)"
proof (cases "ipAddressesCidr e (cidr (config props))")
  case (Some message)
  from NetworkingStack_library_rejects [OF assms Some] show ?thesis by simp
next
  case None
  show ?thesis
  proof (cases "availabilityZones e = []")
    case True
    from NetworkingStack_no_zone [OF assms None True] show ?thesis by simp
  next
    case False
    from NetworkingStack_succeeds [OF assms None False] show ?thesis by auto
  qed
qed

text \<open>
  C10. The prefix test compares text. The allocator fails exactly when the part of the CIDR
  string after the first slash (\<open>split('/')[1]\<close>, which ends at a further slash if there
  is one) is not the string \<open>16\<close>. The constructor then throws its prefix error, carrying
  that text, with no construct created; when the text is \<open>16\<close> neither
  \<open>throw new Error\<close> of the stack fires, and a failure can only come from the library.
  For \<open>net/p\<close> with no slash in \<open>net\<close> or \<open>p\<close> and \<open>p\<close> different from \<open>16\<close> the error
  carries \<open>p\<close>; a string with no slash is rejected with the same error, carrying
  \<open>undefined\<close>; \<open>10.0.0.0/016\<close> and \<open>10.0.0.0/16\<close> followed by a space are rejected.
\<close>

theorem prefix_check_is_textual:
  "((\<exists>err. calculateFixedSubnetAllocation (cidr (config props)) = Inl err) \<longleftrightarrow>
      at (str_split CHR ''/'' (cidr (config props))) 1 \<noteq> Some ''16'')
   \<and> (at (str_split CHR ''/'' (cidr (config props))) 1 \<noteq> Some ''16'' \<longrightarrow>
         NetworkingStack props e =
           (Inl (Error (''VPC CIDR must be /16, got /''
                        @ template (at (str_split CHR ''/'' (cidr (config props))) 1)
                        @ ''. This CDK is designed for /16 VPCs with /20 subnets.'')), []))
   \<and> (at (str_split CHR ''/'' (cidr (config props))) 1 = Some ''16'' \<longrightarrow>
         (\<forall>m. fst (NetworkingStack props e) \<noteq> Inl (Error m)))
   \<and> (\<forall>net p. cidr (config props) = net @ ''/'' @ p \<and> CHR ''/'' \<notin> set net
               \<and> CHR ''/'' \<notin> set p \<and> p \<noteq> ''16'' \<longrightarrow>
         NetworkingStack props e =
           (Inl (Error (''VPC CIDR must be /16, got /'' @ p
                        @ ''. This CDK is designed for /16 VPCs with /20 subnets.'')), []))
   \<and> (CHR ''/'' \<notin> set (cidr (config props)) \<longrightarrow>
         NetworkingStack props e =
           (Inl (Error ''VPC CIDR must be /16, got /undefined. This CDK is designed for /16 VPCs with /20 subnets.''), []))
   \<and> (cidr (config props) = ''10.0.0.0/016'' \<longrightarrow>
         NetworkingStack props e =
           (Inl (Error ''VPC CIDR must be /16, got /016. This CDK is designed for /16 VPCs with /20 subnets.''), []))
   \<and> (cidr (config props) = ''10.0.0.0/16 '' \<longrightarrow>
         NetworkingStack props e =
           (Inl (Error ''VPC CIDR must be /16, got /16 . This CDK is designed for /16 VPCs with /20 subnets.''), []))"
proof -
  have general: "NetworkingStack props e =
           (Inl (Error (''VPC CIDR must be /16, got /'' @ p
                        @ ''. This CDK is designed for /16 VPCs with /20 subnets.'')), [])"
    if "cidr (config props) = net @ ''/'' @ p" "CHR ''/'' \<notin> set net"
      "CHR ''/'' \<notin> set p" "p \<noteq> ''16''" for net p
  proof -
    have p: "at (str_split CHR ''/'' (cidr (config props))) 1 = Some p"
      using that(1) at_prefix_text [OF that(2,3)] by simp
    then have ne: "at (str_split CHR ''/'' (cidr (config props))) 1 \<noteq> Some ''16''"
      using that(4) by simp
    show ?thesis
      using NetworkingStack_rejects [OF ne, of e] unfolding p template_def by simp
  qed
  have noslash: "NetworkingStack props e =
           (Inl (Error ''VPC CIDR must be /16, got /undefined. This CDK is designed for /16 VPCs with /20 subnets.''), [])"
    if "CHR ''/'' \<notin> set (cidr (config props))"
  proof -
    have p: "at (str_split CHR ''/'' (cidr (config props))) 1 = None"
      using that by (rule at_no_slash)
    then have ne: "at (str_split CHR ''/'' (cidr (config props))) 1 \<noteq> Some ''16''"
      by simp
    show ?thesis
      using NetworkingStack_rejects [OF ne, of e] unfolding p template_def by simp
  qed
  have ex1: "NetworkingStack props e =
           (Inl (Error ''VPC CIDR must be /16, got /016. This CDK is designed for /16 VPCs with /20 subnets.''), [])"
    if "cidr (config props) = ''10.0.0.0/016''"
    using general [of "''10.0.0.0''" "''016''"] that by simp
  have ex2: "NetworkingStack props e =
           (Inl (Error ''VPC CIDR must be /16, got /16 . This CDK is designed for /16 VPCs with /20 subnets.''), [])"
    if "cidr (config props) = ''10.0.0.0/16 ''"
    using general [of "''10.0.0.0''" "''16 ''"] that by simp
  have a: "(\<exists>err. calculateFixedSubnetAllocation (cidr (config props)) = Inl err) \<longleftrightarrow>
      at (str_split CHR ''/'' (cidr (config props))) 1 \<noteq> Some ''16''"
    by (rule allocation_fails_iff)
  have b: "at (str_split CHR ''/'' (cidr (config props))) 1 \<noteq> Some ''16'' \<longrightarrow>
         NetworkingStack props e =
           (Inl (Error (''VPC CIDR must be /16, got /''
                        @ template (at (str_split CHR ''/'' (cidr (config props))) 1)
                        @ ''. This CDK is designed for /16 VPCs with /20 subnets.'')), [])"
    using NetworkingStack_rejects [of props e] by blast
  have c: "at (str_split CHR ''/'' (cidr (config props))) 1 = Some ''16'' \<longrightarrow>
         (\<forall>m. fst (NetworkingStack props e) \<noteq> Inl (Error m))"
    using NetworkingStack_no_own_error [of props e] by blast
  from a b c general noslash ex1 ex2 show ?thesis by blast
qed



theorem prefix_check_is_textual_witness:
  "NetworkingStack (readme_props\<lparr>config := readme_config\<lparr>cidr := ''10.0.0.0/016''\<rparr>\<rparr>) two_zone_env =
     (Inl (Error ''VPC CIDR must be /16, got /016. This CDK is designed for /16 VPCs with /20 subnets.''), [])
   \<and> NetworkingStack (readme_props\<lparr>config := readme_config\<lparr>cidr := ''10.0.0.0''\<rparr>\<rparr>) two_zone_env =
     (Inl (Error ''VPC CIDR must be /16, got /undefined. This CDK is designed for /16 VPCs with /20 subnets.''), [])"
  using prefix_check_is_textual
    [of "readme_props\<lparr>config := readme_config\<lparr>cidr := ''10.0.0.0/016''\<rparr>\<rparr>" two_zone_env]
    prefix_check_is_textual
    [of "readme_props\<lparr>config := readme_config\<lparr>cidr := ''10.0.0.0''\<rparr>\<rparr>" two_zone_env]
  by simp

section \<open>The allocation depends on the CIDR string only (C9)\<close>




section \<open>Malformed addresses (C2)\<close>

lemma num_add_NaN: "num_add x NaN = NaN" "num_add NaN y = NaN"
  by (cases x; simp) simp

lemma reduce_NaN:
  "foldl (\<lambda>acc octet. num_add (num_mul acc (Num 256)) (parseInt octet)) NaN parts = NaN"
  by (induction parts) (simp_all add: num_add_NaN)

lemma reduce_unreadable_part:
  assumes "p \<in> set parts" and "parseInt p = NaN"
  shows "foldl (\<lambda>acc octet. num_add (num_mul acc (Num 256)) (parseInt octet)) acc parts = NaN"
  using assms(1)
proof (induction parts arbitrary: acc)
  case Nil
  then show ?case by simp
next
  case (Cons q qs)
  show ?case
  proof (cases "q = p")
    case True
    then show ?thesis by (simp add: assms(2) num_add_NaN reduce_NaN)
  next
    case False
    with Cons.prems have "p \<in> set qs" by simp
    then show ?thesis by (simp add: Cons.IH)
  qed
qed

lemma fold256_grows: "k \<le> foldl (\<lambda>acc v. acc * 256 + v) k (vs :: nat list)"
proof (induction vs arbitrary: k)
  case Nil
  show ?case by simp
next
  case (Cons v vs)
  have "k \<le> k * 256 + v" by simp
  also have "\<dots> \<le> foldl (\<lambda>acc v. acc * 256 + v) (k * 256 + v) vs" by (rule Cons.IH)
  finally show ?case by simp
qed

lemma reduce_step_num:
  assumes "k * 256 + v < 2 ^ 53"
  shows "num_add (num_mul (Num (int k)) (Num 256)) (Num (int v)) = Num (int (k * 256 + v))"
proof -
  from assms have k: "k * 256 < 2 ^ 53" by simp
  have "num_mul (Num (int k)) (Num 256) = Num (int (k * 256))"
    using to_number_nat [OF k] by simp
  moreover have "num_add (Num (int (k * 256))) (Num (int v)) = Num (int (k * 256 + v))"
    using to_number_nat [OF assms] by simp
  ultimately show ?thesis by simp
qed

lemma reduce_readable_parts:
  assumes "map parseInt parts = map (\<lambda>v. Num (int v)) vs"
    and "foldl (\<lambda>acc v. acc * 256 + v) k vs < 2 ^ 53"
  shows "foldl (\<lambda>acc octet. num_add (num_mul acc (Num 256)) (parseInt octet)) (Num (int k)) parts
           = Num (int (foldl (\<lambda>acc v. acc * 256 + v) k vs))"
  using assms
proof (induction parts arbitrary: k vs)
  case Nil
  then show ?case by simp
next
  case (Cons p ps)
  from Cons.prems(1) obtain v vs' where vs: "vs = v # vs'"
    and p: "parseInt p = Num (int v)"
    and ps: "map parseInt ps = map (\<lambda>v. Num (int v)) vs'"
    by (cases vs) auto
  from Cons.prems(2) have b: "foldl (\<lambda>acc v. acc * 256 + v) (k * 256 + v) vs' < 2 ^ 53"
    by (simp add: vs)
  with fold256_grows [of "k * 256 + v" vs'] have s: "k * 256 + v < 2 ^ 53" by simp
  have "foldl (\<lambda>acc octet. num_add (num_mul acc (Num 256)) (parseInt octet)) (Num (int k))
          (p # ps) =
        foldl (\<lambda>acc octet. num_add (num_mul acc (Num 256)) (parseInt octet))
          (num_add (num_mul (Num (int k)) (Num 256)) (parseInt p)) ps"
    by (simp only: foldl_Cons)
  also have "\<dots> =
        foldl (\<lambda>acc octet. num_add (num_mul acc (Num 256)) (parseInt octet))
          (Num (int (k * 256 + v))) ps"
    by (simp only: p reduce_step_num [OF s])
  also have "\<dots> = Num (int (foldl (\<lambda>acc v. acc * 256 + v) (k * 256 + v) vs'))"
    by (rule Cons.IH [OF ps b])
  finally show ?case by (simp only: vs foldl_Cons)
qed

lemma ipToNumber_unreadable:
  assumes "\<exists>p\<in>set (str_split CHR ''.'' s). parseInt p = NaN"
  shows "ipToNumber s = NaN"
  using assms unfolding ipToNumber_def by (auto intro: reduce_unreadable_part)

lemma ipToNumber_fold256:
  assumes "map parseInt (str_split CHR ''.'' s) = map (\<lambda>v. Num (int v)) vs"
    and "fold256 vs < 2 ^ 53"
  shows "ipToNumber s = Num (int (fold256 vs))"
  using reduce_readable_parts [of "str_split CHR ''.'' s" vs 0] assms
  by (simp add: ipToNumber_def fold256_def)

lemma ipToNumber_valid_quad:
  assumes "valid_quad s"
  shows "\<exists>a b c d. a < 256 \<and> b < 256 \<and> c < 256 \<and> d < 256 \<and> s = dotted a b c d
           \<and> ipToNumber s = Num (int (quad_value a b c d))"
  using valid_quad_dotted [OF assms] ipToNumber_dotted by blast

lemma allocation_any_address:
  assumes "CHR ''/'' \<notin> set s"
  shows "\<exists>al. calculateFixedSubnetAllocation (s @ ''/16'') = Inr al"
proof -
  have "at (str_split CHR ''/'' (s @ ''/'' @ ''16'')) 1 = Some ''16''"
    by (rule at_prefix_text [OF assms]) simp
  then have "at (str_split CHR ''/'' (s @ ''/16'')) 1 = Some ''16''" by simp
  from allocation_shape [OF this] show ?thesis by blast
qed

text \<open>
  The conversion has no failure path. \<open>1.2.3\<close> has three parts and \<open>256.0.0.0\<close> has an
  octet above 255; \<open>ipToNumber\<close> returns a number on both, and the allocator returns an
  allocation for \<open>1.2.3/16\<close>.
\<close>

theorem malformed_address_not_rejected:
  "\<not> valid_quad ''1.2.3'' \<and> ipToNumber ''1.2.3'' = Num 66051
   \<and> \<not> valid_quad ''256.0.0.0'' \<and> ipToNumber ''256.0.0.0'' = Num 4294967296
   \<and> calculateFixedSubnetAllocation ''1.2.3/16'' =
       Inr \<lparr>web = [''0.1.2.3/20'', ''0.1.18.3/20''],
            app = [''0.1.34.3/20'', ''0.1.50.3/20''],
            data = [''0.1.66.3/20'', ''0.1.82.3/20'']\<rparr>"
  by code_simp

text \<open>
  C2, as the code has it. On a valid dotted quad \<open>a.b.c.d\<close>, \<open>ipToNumber\<close> returns
  \<open>a * 2 ^ 24 + b * 2 ^ 16 + c * 2 ^ 8 + d\<close>. On any other string it does not fail either:
  when \<open>parseInt\<close> reads no integer at the start of some dot-separated part the result is
  \<open>NaN\<close>, and when every part starts with a non-negative integer, whatever the number of
  parts and the size of the octets, the result is their base-256 value, as long as that is
  below \<open>2 ^ 53\<close>. The allocator that calls it returns an allocation, not an error,
  whatever the address text before \<open>/16\<close>.
\<close>

theorem ipToNumber_folds_without_failing:
  "(valid_quad s \<longrightarrow>
        (\<exists>a b c d. a < 256 \<and> b < 256 \<and> c < 256 \<and> d < 256 \<and> s = dotted a b c d
           \<and> ipToNumber s = Num (int (quad_value a b c d))))
   \<and> ((\<exists>p\<in>set (str_split CHR ''.'' s). parseInt p = NaN) \<longrightarrow> ipToNumber s = NaN)
   \<and> (\<forall>vs. map parseInt (str_split CHR ''.'' s) = map (\<lambda>v. Num (int v)) vs
             \<and> fold256 vs < 2 ^ 53 \<longrightarrow>
          ipToNumber s = Num (int (fold256 vs)))
   \<and> (CHR ''/'' \<notin> set s \<longrightarrow> (\<exists>al. calculateFixedSubnetAllocation (s @ ''/16'') = Inr al))"
  using ipToNumber_valid_quad [of s] ipToNumber_unreadable [of s] ipToNumber_fold256 [of s]
    allocation_any_address [of s]
  by blast

theorem ipToNumber_folds_without_failing_witness:
  "valid_quad ''10.10.0.0''
   \<and> (\<exists>a b c d. a < 256 \<and> b < 256 \<and> c < 256 \<and> d < 256 \<and> ''10.10.0.0'' = dotted a b c d
         \<and> ipToNumber ''10.10.0.0'' = Num (int (quad_value a b c d)))
   \<and> (\<exists>al. calculateFixedSubnetAllocation (''10.10.0.0'' @ ''/16'') = Inr al)
   \<and> parseInt ''x'' = NaN \<and> ipToNumber ''10.x.0.0'' = NaN
   \<and> fold256 [1, 2, 3] = 66051 \<and> ipToNumber ''1.2.3'' = Num (int (fold256 [1, 2, 3]))"
proof -
  have v: "valid_quad ''10.10.0.0''" by code_simp
  have s: "CHR ''/'' \<notin> set ''10.10.0.0''" by simp
  have n: "parseInt ''x'' = NaN" by code_simp
  have m: "\<exists>p\<in>set (str_split CHR ''.'' ''10.x.0.0''). parseInt p = NaN"
    using n by simp
  have f: "fold256 [1, 2, 3] = 66051" by (simp add: fold256_def)
  have g: "map parseInt (str_split CHR ''.'' ''1.2.3'') = map (\<lambda>v. Num (int v)) [1, 2, 3]"
    by code_simp
  have h: "fold256 [1, 2, 3] < 2 ^ 53" by (simp add: fold256_def)
  have t: "ipToNumber ''1.2.3'' = Num (int (fold256 [1, 2, 3]))"
    using ipToNumber_folds_without_failing [of "''1.2.3''"] g h by blast
  show ?thesis
    using v s n m f t ipToNumber_folds_without_failing [of "''10.10.0.0''"]
      ipToNumber_folds_without_failing [of "''10.x.0.0''"]
    by blast
qed

section \<open>The NAT instance (C8)\<close>

text \<open>
  C8. When the environment offers at least one zone, the NAT instance of the finished stack
  is the only instance, it is placed in the imported subnet \<open>WebSubnetRef0\<close> that refers to
  \<open>WebSubnet0\<close> (the Web subnet of zone 0, with the first Web block and
  \<open>mapPublicIpOnLaunch\<close> set), its source/destination check is off, and its security
  group's only ingress rule admits all traffic from the CIDR block of the VPC, which is the
  configured top-level block.
\<close>

theorem nat_instance_placement:
  assumes "NetworkingStack props e = (Inr st, nodes)" and "availabilityZones e \<noteq> []"
  shows "natInstance st =
           Instance ''NatInstance'' ''VPC'' ''t4g.nano'' ''latestAmazonLinux2023/ARM_64'' ''NatSG''
             [Some (ISubnet ''WebSubnetRef0'' (Ref ''WebSubnet0'')
                      (Some (hd (availabilityZones e))) (Ref ''WebRouteTable''))]
             ''NatInstanceRole'' (namePrefix props @ ''-nat-instance'') False natUserData
       \<and> filter is_instance nodes = [natInstance st]
       \<and> CfnSubnet ''WebSubnet0'' (Ref ''VPC'') (Some (web (subnetAllocation st) ! 0))
            (hd (availabilityZones e)) (Some True) [(''Name'', namePrefix props @ ''-web-1'')]
           \<in> set nodes
       \<and> filter is_security_group nodes =
           [SecurityGroup ''NatSG'' ''VPC'' ''Security group for NAT instance'' True
              (namePrefix props @ ''-nat-sg'') [(''Name'', namePrefix props @ ''-nat-sg'')]
              [IngressRule (Ipv4 (GetAtt ''VPC'' ''CidrBlock'')) AllTraffic
                 ''Allow all traffic from VPC'']]
       \<and> filter is_vpc nodes =
           [Vpc ''VPC'' (cidr (config props)) 2 (namePrefix props @ ''-vpc'') [] True]"
proof -
  have pre: "at (str_split CHR ''/'' (cidr (config props))) 1 = Some ''16''"
    using assms(1) by (rule NetworkingStack_Inr_prefix)
  from allocation_shape [OF pre] obtain w0 w1 a0 a1 d0 d1 where
    al: "calculateFixedSubnetAllocation (cidr (config props)) =
           Inr \<lparr>web = [w0, w1], app = [a0, a1], data = [d0, d1]\<rparr>" by blast
  have pre': "at (str_split CHR ''/'' (cidr (config props))) (Suc 0) = Some ''16''"
    using pre by simp
  note lib = NetworkingStack_Inr_accepted [OF assms(1)]
  from take2_one [OF assms(2)] show ?thesis
  proof
    assume "take 2 (availabilityZones e) = [hd (availabilityZones e)]"
    with assms(1) show ?thesis
      by (auto simp: NetworkingStack_def Let_def pre' al lib subnetLoop_def subnetRefs_def upt_small
          toString_small toString_Suc at_list split: option.splits)
  next
    assume "\<exists>b. take 2 (availabilityZones e) = [hd (availabilityZones e), b]"
    then obtain b where "take 2 (availabilityZones e) = [hd (availabilityZones e), b]" by blast
    with assms(1) show ?thesis
      by (auto simp: NetworkingStack_def Let_def pre' al lib subnetLoop_def subnetRefs_def upt_small
          toString_small toString_Suc at_list split: option.splits)
  qed
qed

theorem nat_instance_placement_witness:
  "\<exists>st nodes. NetworkingStack readme_props two_zone_env = (Inr st, nodes)
     \<and> availabilityZones two_zone_env \<noteq> []
     \<and> filter is_instance nodes = [natInstance st]
     \<and> filter is_vpc nodes =
         [Vpc ''VPC'' (cidr (config readme_props)) 2 (namePrefix readme_props @ ''-vpc'') [] True]"
proof -
  from readme_finishes obtain st nodes where
    r: "NetworkingStack readme_props two_zone_env = (Inr st, nodes)" by blast
  have z: "availabilityZones two_zone_env \<noteq> []"
    by (simp add: two_zone_env_def)
  from r z nat_instance_placement [OF r z] show ?thesis by blast
qed


section \<open>Subnets and their associations (C7)\<close>

lemma filter_association_of:
  "filter (association_of sid) xs = filter (association_of sid) (filter is_association xs)"
proof (induction xs)
  case Nil
  show ?case by simp
next
  case (Cons c cs)
  then show ?case by (cases c) simp_all
qed

lemma plan_two_zones:
  assumes "NetworkingStack props e = (Inr st, nodes)" and "2 \<le> length (availabilityZones e)"
  shows "(length (web (subnetAllocation st)) = 2 \<and> length (app (subnetAllocation st)) = 2
      \<and> length (data (subnetAllocation st)) = 2)
     \<and> filter is_subnet nodes =
           [CfnSubnet ''WebSubnet0'' (Ref ''VPC'') (Some (web (subnetAllocation st) ! 0))
              (availabilityZones e ! 0) (Some True) [(''Name'', namePrefix props @ ''-web-1'')],
            CfnSubnet ''WebSubnet1'' (Ref ''VPC'') (Some (web (subnetAllocation st) ! 1))
              (availabilityZones e ! 1) (Some True) [(''Name'', namePrefix props @ ''-web-2'')],
            CfnSubnet ''AppSubnet0'' (Ref ''VPC'') (Some (app (subnetAllocation st) ! 0))
              (availabilityZones e ! 0) None [(''Name'', namePrefix props @ ''-app-1'')],
            CfnSubnet ''AppSubnet1'' (Ref ''VPC'') (Some (app (subnetAllocation st) ! 1))
              (availabilityZones e ! 1) None [(''Name'', namePrefix props @ ''-app-2'')],
            CfnSubnet ''DataSubnet0'' (Ref ''VPC'') (Some (data (subnetAllocation st) ! 0))
              (availabilityZones e ! 0) None [(''Name'', namePrefix props @ ''-data-1'')],
            CfnSubnet ''DataSubnet1'' (Ref ''VPC'') (Some (data (subnetAllocation st) ! 1))
              (availabilityZones e ! 1) None [(''Name'', namePrefix props @ ''-data-2'')]]
     \<and> filter is_association nodes =
           [CfnSubnetRouteTableAssociation ''WebSubnetRTA0'' (Ref ''WebSubnet0'')
              (Ref ''WebRouteTable''),
            CfnSubnetRouteTableAssociation ''WebSubnetRTA1'' (Ref ''WebSubnet1'')
              (Ref ''WebRouteTable''),
            CfnSubnetRouteTableAssociation ''AppSubnetRTA0'' (Ref ''AppSubnet0'')
              (Ref ''AppRouteTable''),
            CfnSubnetRouteTableAssociation ''AppSubnetRTA1'' (Ref ''AppSubnet1'')
              (Ref ''AppRouteTable''),
            CfnSubnetRouteTableAssociation ''DataSubnetRTA0'' (Ref ''DataSubnet0'')
              (Ref ''DataRouteTable''),
            CfnSubnetRouteTableAssociation ''DataSubnetRTA1'' (Ref ''DataSubnet1'')
              (Ref ''DataRouteTable'')]
     \<and> filter is_route_table nodes =
           [CfnRouteTable ''WebRouteTable'' (Ref ''VPC'')
              [(''Name'', namePrefix props @ ''-web-rtb'')],
            CfnRouteTable ''AppRouteTable'' (Ref ''VPC'')
              [(''Name'', namePrefix props @ ''-app-rtb'')],
            CfnRouteTable ''DataRouteTable'' (Ref ''VPC'')
              [(''Name'', namePrefix props @ ''-data-rtb'')]]"
proof -
  have pre: "at (str_split CHR ''/'' (cidr (config props))) 1 = Some ''16''"
    using assms(1) by (rule NetworkingStack_Inr_prefix)
  from allocation_shape [OF pre] obtain w0 w1 a0 a1 d0 d1 where
    al: "calculateFixedSubnetAllocation (cidr (config props)) =
           Inr \<lparr>web = [w0, w1], app = [a0, a1], data = [d0, d1]\<rparr>" by blast
  have pre': "at (str_split CHR ''/'' (cidr (config props))) (Suc 0) = Some ''16''"
    using pre by simp
  note lib = NetworkingStack_Inr_accepted [OF assms(1)]
  note z = take2_two [OF assms(2)]
  show ?thesis
    using assms(1)
    by (auto simp: NetworkingStack_def Let_def pre' al lib z subnetLoop_def subnetRefs_def upt_small
        toString_small toString_Suc at_list split: option.splits)
qed

text \<open>
  C7. When the environment offers at least two zones, every tier has two blocks in the
  allocation, and the subnets of the finished plan are exactly one per tier and zone index,
  in tier order and zone order: the subnet of tier \<open>t\<close> and index \<open>i\<close> has the tier's block
  \<open>i\<close> and zone \<open>i\<close>, and \<open>mapPublicIpOnLaunch\<close> exactly when \<open>t\<close> is Web. The
  associations are exactly one per subnet, each to the route table of the subnet's tier, and
  the route tables are one per tier.
\<close>

theorem subnet_per_tier_and_zone:
  assumes "NetworkingStack props e = (Inr st, nodes)" and "2 \<le> length (availabilityZones e)"
  shows "(\<forall>t. length (tier_blocks (subnetAllocation st) t) = 2)
       \<and> filter is_subnet nodes =
           concat (map (\<lambda>t. map (\<lambda>i.
             CfnSubnet (tier_id t @ ''Subnet'' @ toString i) (Ref ''VPC'')
               (Some (tier_blocks (subnetAllocation st) t ! i)) (availabilityZones e ! i)
               (if t = Web then Some True else None)
               [(''Name'', namePrefix props @ ''-'' @ tier_tag t @ ''-'' @ toString (i + 1))])
             [0, 1]) [Web, App, Data])
       \<and> filter is_association nodes =
           concat (map (\<lambda>t. map (\<lambda>i.
             CfnSubnetRouteTableAssociation (tier_id t @ ''SubnetRTA'' @ toString i)
               (Ref (tier_id t @ ''Subnet'' @ toString i)) (Ref (tier_id t @ ''RouteTable'')))
             [0, 1]) [Web, App, Data])
       \<and> (\<forall>t. \<forall>i<2. filter (association_of (tier_id t @ ''Subnet'' @ toString i)) nodes =
             [CfnSubnetRouteTableAssociation (tier_id t @ ''SubnetRTA'' @ toString i)
                (Ref (tier_id t @ ''Subnet'' @ toString i)) (Ref (tier_id t @ ''RouteTable''))])
       \<and> filter is_route_table nodes =
           map (\<lambda>t. CfnRouteTable (tier_id t @ ''RouteTable'') (Ref ''VPC'')
                      [(''Name'', namePrefix props @ ''-'' @ tier_tag t @ ''-rtb'')])
             [Web, App, Data]"
proof -
  note plan = plan_two_zones [OF assms]
  note al = plan [THEN conjunct1]
  note subnets = plan [THEN conjunct2, THEN conjunct1]
  note assocs = plan [THEN conjunct2, THEN conjunct2, THEN conjunct1]
  note tables = plan [THEN conjunct2, THEN conjunct2, THEN conjunct2]
  have a: "\<forall>t. length (tier_blocks (subnetAllocation st) t) = 2"
  proof
    fix t
    show "length (tier_blocks (subnetAllocation st) t) = 2"
      using al by (cases t) simp_all
  qed
  have b: "filter is_subnet nodes =
           concat (map (\<lambda>t. map (\<lambda>i.
             CfnSubnet (tier_id t @ ''Subnet'' @ toString i) (Ref ''VPC'')
               (Some (tier_blocks (subnetAllocation st) t ! i)) (availabilityZones e ! i)
               (if t = Web then Some True else None)
               [(''Name'', namePrefix props @ ''-'' @ tier_tag t @ ''-'' @ toString (i + 1))])
             [0, 1]) [Web, App, Data])"
    by (simp add: subnets toString_small toString_Suc)
  have c: "filter is_association nodes =
           concat (map (\<lambda>t. map (\<lambda>i.
             CfnSubnetRouteTableAssociation (tier_id t @ ''SubnetRTA'' @ toString i)
               (Ref (tier_id t @ ''Subnet'' @ toString i)) (Ref (tier_id t @ ''RouteTable'')))
             [0, 1]) [Web, App, Data])"
    by (simp add: assocs toString_small toString_Suc)
  have d: "\<forall>t. \<forall>i<2. filter (association_of (tier_id t @ ''Subnet'' @ toString i)) nodes =
             [CfnSubnetRouteTableAssociation (tier_id t @ ''SubnetRTA'' @ toString i)
                (Ref (tier_id t @ ''Subnet'' @ toString i)) (Ref (tier_id t @ ''RouteTable''))]"
  proof (intro allI impI)
    fix t and i :: nat
    assume "i < 2"
    then have i: "i = 0 \<or> i = 1" by auto
    have d0: "filter (association_of sid) nodes =
                filter (association_of sid) (filter is_association nodes)" for sid
      by (rule filter_association_of)
    from i show "filter (association_of (tier_id t @ ''Subnet'' @ toString i)) nodes =
             [CfnSubnetRouteTableAssociation (tier_id t @ ''SubnetRTA'' @ toString i)
                (Ref (tier_id t @ ''Subnet'' @ toString i)) (Ref (tier_id t @ ''RouteTable''))]"
    proof
      assume "i = 0"
      then show ?thesis
        unfolding d0 assocs by (cases t) (simp_all add: toString_small)
    next
      assume "i = 1"
      then show ?thesis
        unfolding d0 assocs by (cases t) (simp_all add: toString_small toString_Suc)
    qed
  qed
  have f: "filter is_route_table nodes =
           map (\<lambda>t. CfnRouteTable (tier_id t @ ''RouteTable'') (Ref ''VPC'')
                      [(''Name'', namePrefix props @ ''-'' @ tier_tag t @ ''-rtb'')])
             [Web, App, Data]"
    by (simp add: tables)
  show ?thesis
    by (intro conjI) (rule a, rule b, rule c, rule d, rule f)
qed

theorem subnet_per_tier_and_zone_witness:
  "\<exists>st nodes. NetworkingStack readme_props two_zone_env = (Inr st, nodes)
     \<and> 2 \<le> length (availabilityZones two_zone_env)
     \<and> (\<forall>t. length (tier_blocks (subnetAllocation st) t) = 2)
     \<and> (\<forall>t. \<forall>i<2. filter (association_of (tier_id t @ ''Subnet'' @ toString i)) nodes =
           [CfnSubnetRouteTableAssociation (tier_id t @ ''SubnetRTA'' @ toString i)
              (Ref (tier_id t @ ''Subnet'' @ toString i)) (Ref (tier_id t @ ''RouteTable''))])"
proof -
  from readme_finishes obtain st nodes where
    r: "NetworkingStack readme_props two_zone_env = (Inr st, nodes)" by blast
  have z: "2 \<le> length (availabilityZones two_zone_env)"
    by (simp add: two_zone_env_def)
  from r z subnet_per_tier_and_zone [OF r z] show ?thesis by blast
qed


section \<open>The resource share (C5)\<close>

lemma share_of_plan:
  assumes "NetworkingStack props e = (Inr st, nodes)"
  shows "filter is_share nodes =
           (case accounts (config props) of
              None \<Rightarrow> []
            | Some accs \<Rightarrow>
                if accs = [] then []
                else [CfnResourceShare ''SubnetResourceShare''
                        (namePrefix props @ ''-subnet-share'')
                        (map (subnetArn e) (filter is_subnet nodes)) accs False
                        [(''Name'', namePrefix props @ ''-subnet-share''),
                         (''Purpose'', ''Cross-account subnet sharing'')]])"
proof -
  have pre: "at (str_split CHR ''/'' (cidr (config props))) 1 = Some ''16''"
    using assms(1) by (rule NetworkingStack_Inr_prefix)
  from allocation_shape [OF pre] obtain w0 w1 a0 a1 d0 d1 where
    al: "calculateFixedSubnetAllocation (cidr (config props)) =
           Inr \<lparr>web = [w0, w1], app = [a0, a1], data = [d0, d1]\<rparr>" by blast
  have pre': "at (str_split CHR ''/'' (cidr (config props))) (Suc 0) = Some ''16''"
    using pre by simp
  note lib = NetworkingStack_Inr_accepted [OF assms(1)]
  show ?thesis
  proof (cases "availabilityZones e" rule: take2_cases)
    case 1
    with assms show ?thesis
      by (auto simp: NetworkingStack_def Let_def pre' al lib subnetLoop_def subnetRefs_def
          at_list split: option.splits)
  next
    case (2 a)
    with assms show ?thesis
      by (auto simp: NetworkingStack_def Let_def pre' al lib subnetLoop_def subnetRefs_def upt_small
          at_list split: option.splits)
  next
    case (3 a b)
    with assms show ?thesis
      by (auto simp: NetworkingStack_def Let_def pre' al lib subnetLoop_def subnetRefs_def upt_small
          at_list split: option.splits)
  qed
qed

lemma subnet_refs_two_zones:
  assumes "NetworkingStack props e = (Inr st, nodes)" and "2 \<le> length (availabilityZones e)"
  shows "map ref (filter is_subnet nodes) =
           [Ref ''WebSubnet0'', Ref ''WebSubnet1'', Ref ''AppSubnet0'', Ref ''AppSubnet1'',
            Ref ''DataSubnet0'', Ref ''DataSubnet1'']"
proof -
  have pre: "at (str_split CHR ''/'' (cidr (config props))) 1 = Some ''16''"
    using assms(1) by (rule NetworkingStack_Inr_prefix)
  from allocation_shape [OF pre] obtain w0 w1 a0 a1 d0 d1 where
    al: "calculateFixedSubnetAllocation (cidr (config props)) =
           Inr \<lparr>web = [w0, w1], app = [a0, a1], data = [d0, d1]\<rparr>" by blast
  have pre': "at (str_split CHR ''/'' (cidr (config props))) (Suc 0) = Some ''16''"
    using pre by simp
  note lib = NetworkingStack_Inr_accepted [OF assms(1)]
  note z = take2_two [OF assms(2)]
  show ?thesis
    using assms(1)
    by (auto simp: NetworkingStack_def Let_def pre' al lib z subnetLoop_def subnetRefs_def upt_small
        toString_small toString_Suc at_list split: option.splits)
qed


lemma finished_without_accounts:
  assumes "NetworkingStack props e = (Inr st, nodes)" and "a = None \<or> a = Some []"
  shows "NetworkingStack (props\<lparr>config := (config props)\<lparr>accounts := a\<rparr>\<rparr>) e =
           (Inr st, filter (\<lambda>c. \<not> is_share c) nodes)"
proof -
  have pre: "at (str_split CHR ''/'' (cidr (config props))) 1 = Some ''16''"
    using assms(1) by (rule NetworkingStack_Inr_prefix)
  from allocation_shape [OF pre] obtain w0 w1 a0 a1 d0 d1 where
    al: "calculateFixedSubnetAllocation (cidr (config props)) =
           Inr \<lparr>web = [w0, w1], app = [a0, a1], data = [d0, d1]\<rparr>" by blast
  have pre': "at (str_split CHR ''/'' (cidr (config props))) (Suc 0) = Some ''16''"
    using pre by simp
  note lib = NetworkingStack_Inr_accepted [OF assms(1)]
  from take2_one [OF NetworkingStack_Inr_zones [OF assms(1)]] show ?thesis
  proof
    assume z: "take 2 (availabilityZones e) = [hd (availabilityZones e)]"
    from assms show ?thesis
      by (auto simp: NetworkingStack_def Let_def pre' al lib z subnetLoop_def subnetRefs_def
          upt_small at_list split: option.splits simp del: length_take)
  next
    assume "\<exists>b. take 2 (availabilityZones e) = [hd (availabilityZones e), b]"
    then obtain b where z: "take 2 (availabilityZones e) = [hd (availabilityZones e), b]"
      by blast
    from assms show ?thesis
      by (auto simp: NetworkingStack_def Let_def pre' al lib z subnetLoop_def subnetRefs_def
          upt_small at_list split: option.splits simp del: length_take)
  qed
qed

text \<open>
  C5. In a finished plan: with \<open>accounts\<close> absent or empty there is no resource share;
  with a non-empty list there is exactly one, whose principals are the configured accounts,
  whose \<open>allowExternalPrincipals\<close> is false and whose resource list is the ARNs of all the
  subnets of the plan; when the environment offers at least two zones these are the six
  subnets Web 0, Web 1, App 0, App 1, Data 0, Data 1. Absent or empty accounts are not an
  error: the same run with \<open>accounts\<close> absent or empty finishes as well, with the same
  stack object and the same constructs except the share.
\<close>

theorem sharing_plan:
  assumes "NetworkingStack props e = (Inr st, nodes)"
  shows "(accounts (config props) = None \<or> accounts (config props) = Some [] \<longrightarrow>
          filter is_share nodes = [])
     \<and> (\<forall>accs. accounts (config props) = Some accs \<and> accs \<noteq> [] \<longrightarrow>
          filter is_share nodes =
            [CfnResourceShare ''SubnetResourceShare'' (namePrefix props @ ''-subnet-share'')
               (map (subnetArn e) (filter is_subnet nodes)) accs False
               [(''Name'', namePrefix props @ ''-subnet-share''),
                (''Purpose'', ''Cross-account subnet sharing'')]])
     \<and> (2 \<le> length (availabilityZones e) \<longrightarrow>
          map (subnetArn e) (filter is_subnet nodes) =
            map (SubnetArn (stackRegion e) (stackAccount e))
              [Ref ''WebSubnet0'', Ref ''WebSubnet1'', Ref ''AppSubnet0'', Ref ''AppSubnet1'',
               Ref ''DataSubnet0'', Ref ''DataSubnet1''])
     \<and> (\<forall>a. a = None \<or> a = Some [] \<longrightarrow>
          NetworkingStack (props\<lparr>config := (config props)\<lparr>accounts := a\<rparr>\<rparr>) e =
            (Inr st, filter (\<lambda>c. \<not> is_share c) nodes))"
proof -
  note share = share_of_plan [OF assms]
  have a: "accounts (config props) = None \<or> accounts (config props) = Some [] \<longrightarrow>
          filter is_share nodes = []"
    by (auto simp: share)
  have b: "\<forall>accs. accounts (config props) = Some accs \<and> accs \<noteq> [] \<longrightarrow>
          filter is_share nodes =
            [CfnResourceShare ''SubnetResourceShare'' (namePrefix props @ ''-subnet-share'')
               (map (subnetArn e) (filter is_subnet nodes)) accs False
               [(''Name'', namePrefix props @ ''-subnet-share''),
                (''Purpose'', ''Cross-account subnet sharing'')]]"
    by (auto simp: share)
  have c: "2 \<le> length (availabilityZones e) \<longrightarrow>
          map (subnetArn e) (filter is_subnet nodes) =
            map (SubnetArn (stackRegion e) (stackAccount e))
              [Ref ''WebSubnet0'', Ref ''WebSubnet1'', Ref ''AppSubnet0'', Ref ''AppSubnet1'',
               Ref ''DataSubnet0'', Ref ''DataSubnet1'']"
  proof
    assume z: "2 \<le> length (availabilityZones e)"
    have "map (subnetArn e) (filter is_subnet nodes) =
            map (SubnetArn (stackRegion e) (stackAccount e)) (map ref (filter is_subnet nodes))"
      by (simp add: subnetArn_def)
    then show "map (subnetArn e) (filter is_subnet nodes) =
            map (SubnetArn (stackRegion e) (stackAccount e))
              [Ref ''WebSubnet0'', Ref ''WebSubnet1'', Ref ''AppSubnet0'', Ref ''AppSubnet1'',
               Ref ''DataSubnet0'', Ref ''DataSubnet1'']"
      by (simp only: subnet_refs_two_zones [OF assms z])
  qed
  have d: "\<forall>a. a = None \<or> a = Some [] \<longrightarrow>
          NetworkingStack (props\<lparr>config := (config props)\<lparr>accounts := a\<rparr>\<rparr>) e =
            (Inr st, filter (\<lambda>c. \<not> is_share c) nodes)"
    using finished_without_accounts [OF assms] by blast
  show ?thesis
    by (intro conjI) (rule a, rule b, rule c, rule d)
qed

theorem sharing_plan_witness:
  "\<exists>st nodes. NetworkingStack readme_props two_zone_env = (Inr st, nodes)
     \<and> filter is_share nodes =
         [CfnResourceShare ''SubnetResourceShare'' ''prod-network-subnet-share''
            (map (SubnetArn ''us-east-1'' ''111122223333'')
              [Ref ''WebSubnet0'', Ref ''WebSubnet1'', Ref ''AppSubnet0'', Ref ''AppSubnet1'',
               Ref ''DataSubnet0'', Ref ''DataSubnet1''])
            [''123456789012''] False
            [(''Name'', ''prod-network-subnet-share''),
             (''Purpose'', ''Cross-account subnet sharing'')]]
     \<and> NetworkingStack (readme_props\<lparr>config := (config readme_props)\<lparr>accounts := None\<rparr>\<rparr>)
           two_zone_env = (Inr st, filter (\<lambda>c. \<not> is_share c) nodes)
     \<and> filter is_share (filter (\<lambda>c. \<not> is_share c) nodes) = []"
proof -
  have acc: "accounts (config readme_props) = Some [''123456789012'']"
    by (simp add: readme_props_def readme_config_def)
  have z: "2 \<le> length (availabilityZones two_zone_env)"
    by (simp add: two_zone_env_def)
  from readme_finishes obtain st nodes where
    r: "NetworkingStack readme_props two_zone_env = (Inr st, nodes)" by blast
  note plan = sharing_plan [OF r]
  from plan acc have "filter is_share nodes =
            [CfnResourceShare ''SubnetResourceShare'' (namePrefix readme_props @ ''-subnet-share'')
               (map (subnetArn two_zone_env) (filter is_subnet nodes)) [''123456789012''] False
               [(''Name'', namePrefix readme_props @ ''-subnet-share''),
                (''Purpose'', ''Cross-account subnet sharing'')]]"
    by simp
  moreover from plan z have "map (subnetArn two_zone_env) (filter is_subnet nodes) =
            map (SubnetArn (stackRegion two_zone_env) (stackAccount two_zone_env))
              [Ref ''WebSubnet0'', Ref ''WebSubnet1'', Ref ''AppSubnet0'', Ref ''AppSubnet1'',
               Ref ''DataSubnet0'', Ref ''DataSubnet1'']"
    by blast
  ultimately have s: "filter is_share nodes =
         [CfnResourceShare ''SubnetResourceShare'' ''prod-network-subnet-share''
            (map (SubnetArn ''us-east-1'' ''111122223333'')
              [Ref ''WebSubnet0'', Ref ''WebSubnet1'', Ref ''AppSubnet0'', Ref ''AppSubnet1'',
               Ref ''DataSubnet0'', Ref ''DataSubnet1''])
            [''123456789012''] False
            [(''Name'', ''prod-network-subnet-share''),
             (''Purpose'', ''Cross-account subnet sharing'')]]"
    by (simp add: readme_props_def readme_config_def two_zone_env_def)
  from plan have n: "NetworkingStack
      (readme_props\<lparr>config := (config readme_props)\<lparr>accounts := None\<rparr>\<rparr>) two_zone_env =
        (Inr st, filter (\<lambda>c. \<not> is_share c) nodes)"
    by blast
  have e: "filter is_share (filter (\<lambda>c. \<not> is_share c) nodes) = []"
    by (simp add: filter_empty_conv)
  from r s n e show ?thesis by blast
qed

end
